theory Spec2Isabelle
  imports Complex_Main "HOL-Library.Multiset" "HOL-Library.Char_ord" "HOL-Library.List_Lexorder"
    "HOL-Library.Product_Lexorder"
begin

section \<open>Cells, errors and text helpers\<close>

text \<open>
  The backend works on pandas tables. A cell is a missing value (NaN, NaT, NA), a text, an
  integer (the nullable Int64 week number), a number (float64, read here as a real: rounding
  and infinite values are not modelled), a timestamp (datetime64, nanoseconds as an integer)
  or a truth value.

  A text is a list of characters, and a character is a code point below 256 (the Latin-1
  range of Unicode); texts with other code points are outside the model.
\<close>

datatype cell = Null | Str string | IntV int | Num real | Ts int | Bool bool

datatype error = KeyError | TypeError | ValueError | MergeError | OverflowError

text \<open>
  Python's \<open>str.strip()\<close> removes the characters for which \<open>str.isspace()\<close> holds. Below 256
  these are the code points 9 to 13, 28 to 32, 133 (next line) and 160 (no-break space).
\<close>

definition py_space :: "char \<Rightarrow> bool" where
  "py_space c = ((of_char c :: nat) \<in> {9, 10, 11, 12, 13, 28, 29, 30, 31, 32, 133, 160})"

definition strip :: "string \<Rightarrow> string" where
  "strip s = rev (dropWhile py_space (rev (dropWhile py_space s)))"

text \<open>
  The lower-case form of an ASCII letter; every other character stays. This is the case
  folding of C's \<open>strcasecmp\<close> and the ASCII part of \<open>str.lower()\<close>.
\<close>

definition ascii_lower_char :: "char \<Rightarrow> char" where
  "ascii_lower_char c =
     (case map_of (zip ''ABCDEFGHIJKLMNOPQRSTUVWXYZ'' ''abcdefghijklmnopqrstuvwxyz'') c of
        None \<Rightarrow> c
      | Some l \<Rightarrow> l)"

text \<open>
  \<open>str.lower()\<close>: below 256 the capital letters are \<open>A\<close> to \<open>Z\<close> and the code points 192 to 214
  and 216 to 222 (the accented capitals of Latin-1; 215 is the multiplication sign); the
  lower-case form of each is 32 code points higher. Every other character below 256 is its own
  lower-case form.
\<close>

definition latin1_capital :: "char \<Rightarrow> bool" where
  "latin1_capital c =
     (let n = (of_char c :: nat) in (192 \<le> n \<and> n \<le> 214) \<or> (216 \<le> n \<and> n \<le> 222))"

definition lower_char :: "char \<Rightarrow> char" where
  "lower_char c =
     (if latin1_capital c then char_of ((of_char c :: nat) + 32) else ascii_lower_char c)"

definition lower :: "string \<Rightarrow> string" where
  "lower s = map lower_char s"

text \<open>
  \<open>s.replace(old, "")\<close> for a non-empty \<open>old\<close>: every occurrence is removed, scanning from the
  left and continuing after the removed text.
\<close>

function str_remove :: "string \<Rightarrow> string \<Rightarrow> string" where
  "str_remove old [] = []"
| "str_remove old (c # cs) =
     (if old \<noteq> [] \<and> take (length old) (c # cs) = old
      then str_remove old (drop (length old) (c # cs))
      else c # str_remove old cs)"
  by pat_completeness auto
termination
  by (relation "measure (\<lambda>(old, s). length s)") (auto simp: neq_Nil_conv)

section \<open>Numeric parsing (\<open>pd.to_numeric(..., errors="coerce")\<close>)\<close>

text \<open>
  The parser behind \<open>to_numeric\<close> accepts, between optional blanks, an optional sign, digits
  with an optional decimal point, and an optional exponent; at least one mantissa digit is
  required and nothing may follow. A text without point and exponent is an integer, any other
  accepted text a float. A text that is not accepted is compared as a whole, ignoring the case
  of ASCII letters, with \<open>inf\<close> and \<open>infinity\<close>, each with an optional sign: these are the
  floats plus and minus infinity. Everything else is coerced to a missing value.
\<close>

datatype pynum = PInt int | PFloat real | PInf bool

definition c_space :: "char \<Rightarrow> bool" where
  "c_space c = ((of_char c :: nat) \<in> {9, 10, 11, 12, 13, 32})"

definition is_digit :: "char \<Rightarrow> bool" where
  "is_digit c = (let n = (of_char c :: nat) in 48 \<le> n \<and> n \<le> 57)"

definition digits_val :: "string \<Rightarrow> nat" where
  "digits_val ds = foldl (\<lambda>acc c. 10 * acc + ((of_char c :: nat) - 48)) 0 ds"

definition take_sign :: "string \<Rightarrow> bool \<times> string" where
  "take_sign s =
     (case s of
        [] \<Rightarrow> (False, [])
      | c # cs \<Rightarrow> if c = CHR ''-'' then (True, cs) else if c = CHR ''+'' then (False, cs) else (False, s))"

text \<open>The exponent part: absent, or \<open>e\<close>/\<open>E\<close>, an optional sign and at least one digit.\<close>

definition take_exponent :: "string \<Rightarrow> (int \<times> bool \<times> string) option" where
  "take_exponent s =
     (case s of
        [] \<Rightarrow> Some (0, False, [])
      | c # cs \<Rightarrow>
          if c = CHR ''e'' \<or> c = CHR ''E'' then
            (let (neg, r) = take_sign cs; ds = takeWhile is_digit r in
             if ds = [] then None
             else Some ((if neg then - int (digits_val ds) else int (digits_val ds)), True,
                        dropWhile is_digit r))
          else Some (0, False, s))"

definition scale10 :: "real \<Rightarrow> int \<Rightarrow> real" where
  "scale10 x e = (if 0 \<le> e then x * 10 ^ nat e else x / 10 ^ nat (- e))"

definition parse_decimal :: "string \<Rightarrow> pynum option" where
  "parse_decimal s =
     (let (neg, s1) = take_sign (dropWhile c_space s);
          ip = takeWhile is_digit s1;
          s2 = dropWhile is_digit s1;
          has_dot = (s2 \<noteq> [] \<and> hd s2 = CHR ''.'');
          fp = (if has_dot then takeWhile is_digit (tl s2) else []);
          s3 = (if has_dot then dropWhile is_digit (tl s2) else s2)
      in if ip = [] \<and> fp = [] then None
         else case take_exponent s3 of
                None \<Rightarrow> None
              | Some (e, has_exp, s4) \<Rightarrow>
                  if dropWhile c_space s4 \<noteq> [] then None
                  else if \<not> has_dot \<and> \<not> has_exp then
                    Some (PInt (if neg then - int (digits_val ip) else int (digits_val ip)))
                  else
                    (let m = real (digits_val ip) + real (digits_val fp) / 10 ^ length fp;
                         v = scale10 m e
                     in Some (PFloat (if neg then - v else v))))"

text \<open>The tokens for infinity; the result tells whether the infinity is the negative one.\<close>

definition infinity_token :: "string \<Rightarrow> bool option" where
  "infinity_token s =
     (let t = map ascii_lower_char s in
      if t = ''inf'' \<or> t = ''+inf'' \<or> t = ''infinity'' \<or> t = ''+infinity'' then Some False
      else if t = ''-inf'' \<or> t = ''-infinity'' then Some True
      else None)"

definition to_numeric_str :: "string \<Rightarrow> pynum option" where
  "to_numeric_str s =
     (case parse_decimal s of
        Some v \<Rightarrow> Some v
      | None \<Rightarrow> (case infinity_token s of None \<Rightarrow> None | Some neg \<Rightarrow> Some (PInf neg)))"

text \<open>
  \<open>to_numeric\<close> on one cell of a column: numbers stay, texts are parsed. A number cell holds a
  real, so an infinite float has no cell: a text that is read as an infinity is read here as
  a missing value, and tables with infinite metric values are outside the model.
\<close>

fun to_numeric :: "cell \<Rightarrow> real option" where
  "to_numeric Null = None"
| "to_numeric (Str s) =
     (case to_numeric_str s of
        None \<Rightarrow> None
      | Some (PInt n) \<Rightarrow> Some (real_of_int n)
      | Some (PFloat x) \<Rightarrow> Some x
      | Some (PInf neg) \<Rightarrow> None)"
| "to_numeric (IntV n) = Some (real_of_int n)"
| "to_numeric (Num x) = Some x"
| "to_numeric (Ts t) = Some (real_of_int t)"
| "to_numeric (Bool b) = Some (if b then 1 else 0)"

section \<open>Week-number parser\<close>

text \<open>
  \<open>.astype("Int64")\<close> on the parsed column: a missing value stays missing, an integral number
  in the range of a 64-bit integer becomes that integer, a number with a fractional part
  or out of that range makes pandas raise \<open>TypeError: cannot safely cast non-equivalent
  float64 to int64\<close>, and an infinity makes it raise \<open>OverflowError: cannot convert float
  infinity to integer\<close>.
\<close>

definition in_int64 :: "int \<Rightarrow> bool" where
  "in_int64 n = (- (2 ^ 63) \<le> n \<and> n < 2 ^ 63)"

definition astype_Int64 :: "pynum option \<Rightarrow> error + int option" where
  "astype_Int64 v =
     (case v of
        None \<Rightarrow> Inr None
      | Some (PInt n) \<Rightarrow> if in_int64 n then Inr (Some n) else Inl TypeError
      | Some (PFloat x) \<Rightarrow>
          if real_of_int \<lfloor>x\<rfloor> = x \<and> in_int64 \<lfloor>x\<rfloor> then Inr (Some \<lfloor>x\<rfloor>) else Inl TypeError
      | Some (PInf neg) \<Rightarrow> Inl OverflowError)"

text \<open>
  \<open>parse_week_number\<close> on one text: strip, remove the literal \<open>Week\<close>, strip, parse, cast.
\<close>

definition parse_week_text :: "string \<Rightarrow> error + int option" where
  "parse_week_text s = astype_Int64 (to_numeric_str (strip (str_remove ''Week'' (strip s))))"

text \<open>
  On one cell: \<open>astype(str)\<close> comes first. A missing value prints as \<open>nan\<close>/\<open><NA>\<close>, which parses
  to a missing value; an integer prints as its numeral; a float prints as a numeral that
  parses back to itself; a timestamp prints as a date and a truth value as \<open>True\<close> or \<open>False\<close>,
  which are not numbers.
\<close>

fun parse_week_cell :: "cell \<Rightarrow> error + int option" where
  "parse_week_cell Null = Inr None"
| "parse_week_cell (Str s) = parse_week_text s"
| "parse_week_cell (IntV n) = Inr (Some n)"
| "parse_week_cell (Num x) = astype_Int64 (Some (PFloat x))"
| "parse_week_cell (Ts t) = Inr None"
| "parse_week_cell (Bool b) = Inr None"

text \<open>The column version: the cast is one operation on the whole column, so one bad cell fails it.\<close>

fun sequence_err :: "(error + 'a) list \<Rightarrow> error + 'a list" where
  "sequence_err [] = Inr []"
| "sequence_err (x # xs) =
     (case x of
        Inl e \<Rightarrow> Inl e
      | Inr v \<Rightarrow> (case sequence_err xs of Inl e \<Rightarrow> Inl e | Inr vs \<Rightarrow> Inr (v # vs)))"

definition parse_week_number :: "cell list \<Rightarrow> error + int option list" where
  "parse_week_number series = sequence_err (map parse_week_cell series)"

section \<open>Tables\<close>

text \<open>
  A table has its column names and its rows; each row carries its index label (pandas keeps
  the label of a row through sorting and filtering, and aligns on it when a column is
  assigned). A row gives the cell of every column name; only the names in \<open>cols\<close> count.
\<close>

type_synonym row = "string \<Rightarrow> cell"

record table =
  cols :: "string list"
  rows :: "(nat \<times> row) list"

definition empty_table :: table where
  "empty_table = \<lparr>cols = [], rows = []\<rparr>"

definition has_cols :: "string list \<Rightarrow> table \<Rightarrow> bool" where
  "has_cols cs t = (set cs \<subseteq> set (cols t))"

definition col :: "string \<Rightarrow> nat \<times> row \<Rightarrow> cell" where
  "col c x = snd x c"

text \<open>\<open>df.empty\<close>: no rows or no columns.\<close>

definition is_empty :: "table \<Rightarrow> bool" where
  "is_empty t = (rows t = [] \<or> cols t = [])"

section \<open>Sorting by one column\<close>

text \<open>
  \<open>sort_values(column)\<close> sorts the rows that have a value with numpy's \<open>argsort\<close> and puts the
  rows with a missing value after them, in their original order. The default kind of
  \<open>argsort\<close> is quicksort, which does not promise to keep equal keys in their original order,
  so the routine is a parameter \<open>srt\<close> of every function that sorts by one column. It works
  on the rows paired with their key. With \<open>ascending=False\<close> pandas reverses the rows,
  sorts, and reverses the result.
\<close>

definition with_keys :: "('a \<Rightarrow> 'k option) \<Rightarrow> 'a list \<Rightarrow> ('k \<times> 'a) list" where
  "with_keys key xs = concat (map (\<lambda>x. case key x of None \<Rightarrow> [] | Some k \<Rightarrow> [(k, x)]) xs)"

definition sort_values :: "(('k \<times> 'a) list \<Rightarrow> ('k \<times> 'a) list) \<Rightarrow> ('a \<Rightarrow> 'k option) \<Rightarrow> 'a list \<Rightarrow> 'a list" where
  "sort_values srt key xs = map snd (srt (with_keys key xs)) @ filter (\<lambda>x. key x = None) xs"

definition sort_values_desc :: "(('k \<times> 'a) list \<Rightarrow> ('k \<times> 'a) list) \<Rightarrow> ('a \<Rightarrow> 'k option) \<Rightarrow> 'a list \<Rightarrow> 'a list" where
  "sort_values_desc srt key xs =
     rev (map snd (srt (rev (with_keys key xs)))) @ filter (\<lambda>x. key x = None) xs"

text \<open>What every kind of \<open>argsort\<close> guarantees, and what only a stable kind guarantees.\<close>

definition sort_ok :: "(('k::linorder \<times> 'a) list \<Rightarrow> ('k \<times> 'a) list) \<Rightarrow> bool" where
  "sort_ok srt = (\<forall>xs. mset (srt xs) = mset xs \<and> sorted (map fst (srt xs)))"

definition sort_stable :: "(('k \<times> 'a) list \<Rightarrow> ('k \<times> 'a) list) \<Rightarrow> bool" where
  "sort_stable srt = (\<forall>xs k. filter (\<lambda>p. fst p = k) (srt xs) = filter (\<lambda>p. fst p = k) xs)"

text \<open>A stable instance: insertion sort by key.\<close>

definition stable_sort :: "('k::linorder \<times> 'a) list \<Rightarrow> ('k \<times> 'a) list" where
  "stable_sort xs = sort_key fst xs"

text \<open>An instance that sorts but is not stable: it turns equal keys around.\<close>

definition reversing_sort :: "('k::linorder \<times> 'a) list \<Rightarrow> ('k \<times> 'a) list" where
  "reversing_sort xs = sort_key fst (rev xs)"

section \<open>Deduplicator\<close>

text \<open>
  The timestamp column is datetime64 after \<open>normalize_common\<close>: its cells are timestamps or
  missing. A cell that is not a timestamp is read as missing.
\<close>

definition ts_key :: "nat \<times> row \<Rightarrow> int option" where
  "ts_key x = (case col ''timestamp'' x of Ts t \<Rightarrow> Some t | _ \<Rightarrow> None)"


definition label_key :: "nat \<times> row \<Rightarrow> int option" where
  "label_key x = Some (int (fst x))"

text \<open>The key of \<open>duplicated\<close> and \<open>drop_duplicates\<close>: missing values count as equal.\<close>

definition dedupe_key :: "nat \<times> row \<Rightarrow> cell \<times> cell" where
  "dedupe_key x = (col ''email'' x, col ''week_number'' x)"

text \<open>\<open>duplicated(keep=False)\<close>: the key occurs in more than one row.\<close>

definition duplicated_any :: "('a \<Rightarrow> 'k) \<Rightarrow> 'a list \<Rightarrow> 'a \<Rightarrow> bool" where
  "duplicated_any key xs x = (1 < length (filter (\<lambda>y. key y = key x) xs))"

text \<open>\<open>drop_duplicates(keep="last")\<close>: a row stays when no later row has its key.\<close>

fun drop_duplicates_last :: "('a \<Rightarrow> 'k) \<Rightarrow> 'a list \<Rightarrow> 'a list" where
  "drop_duplicates_last key [] = []"
| "drop_duplicates_last key (x # xs) =
     (if key x \<in> key ` set xs then drop_duplicates_last key xs
      else x # drop_duplicates_last key xs)"

text \<open>
  The duplicates report is sorted by several columns, for which pandas uses a stable
  lexicographic sort with missing values last in every column.
\<close>

definition report_key :: "bool \<Rightarrow> nat \<times> row \<Rightarrow> (bool \<times> string) \<times> (bool \<times> int) \<times> (bool \<times> int)" where
  "report_key with_ts x =
     ((case col ''email'' x of Str s \<Rightarrow> (False, s) | _ \<Rightarrow> (True, [])),
      (case col ''week_number'' x of IntV n \<Rightarrow> (False, n) | _ \<Rightarrow> (True, 0)),
      (if with_ts then (case ts_key x of Some t \<Rightarrow> (False, t) | None \<Rightarrow> (True, 0)) else (True, 0)))"

definition project :: "string list \<Rightarrow> nat \<times> row \<Rightarrow> nat \<times> row" where
  "project cs x = (fst x, (\<lambda>c. if c \<in> set cs then snd x c else Null))"

definition dedupe_weekly_keep_latest ::
  "((int \<times> nat \<times> row) list \<Rightarrow> (int \<times> nat \<times> row) list) \<Rightarrow> table \<Rightarrow> table \<times> table" where
  "dedupe_weekly_keep_latest srt weekly =
     (if \<not> has_cols [''email'', ''week_number''] weekly then (weekly, empty_table)
      else
        (let has_ts = (''timestamp'' \<in> set (cols weekly));
             wk = (if has_ts then sort_values srt ts_key (rows weekly)
                   else sort_values srt label_key (rows weekly));
             dup_cols = filter (\<lambda>c. c \<in> set (cols weekly)) [''email'', ''week_number'', ''timestamp''];
             duplicates = sort_key (report_key has_ts)
                            (map (project dup_cols) (filter (duplicated_any dedupe_key wk) wk))
         in (weekly\<lparr>rows := drop_duplicates_last dedupe_key wk\<rparr>,
             \<lparr>cols = dup_cols, rows = duplicates\<rparr>)))"


section \<open>Normalizer and numeric casts\<close>

text \<open>
  Two library functions are parameters of the functions below: \<open>fmt\<close>, the text that
  \<open>astype(str)\<close> gives for a number or a timestamp, and \<open>to_dt\<close>, what
  \<open>pd.to_datetime(..., errors="coerce")\<close> reads from a cell (a timestamp or nothing; it never
  raises). A text is its own \<open>astype(str)\<close> and a missing value (NaN) prints as \<open>nan\<close>.
\<close>

definition astype_str :: "(cell \<Rightarrow> string) \<Rightarrow> cell \<Rightarrow> string" where
  "astype_str fmt c = (case c of Str s \<Rightarrow> s | Null \<Rightarrow> ''nan'' | _ \<Rightarrow> fmt c)"

text \<open>\<open>df[c] = f(...)\<close>: the column is replaced, or added as the last one.\<close>

definition set_col :: "string \<Rightarrow> (nat \<times> row \<Rightarrow> cell) \<Rightarrow> table \<Rightarrow> table" where
  "set_col c f t =
     \<lparr>cols = (if c \<in> set (cols t) then cols t else cols t @ [c]),
      rows = map (\<lambda>x. (fst x, (snd x)(c := f x))) (rows t)\<rparr>"

definition norm_email :: "(cell \<Rightarrow> string) \<Rightarrow> nat \<times> row \<Rightarrow> cell" where
  "norm_email fmt x = Str (lower (strip (astype_str fmt (col ''email'' x))))"

definition dt_cell :: "(cell \<Rightarrow> int option) \<Rightarrow> cell \<Rightarrow> cell" where
  "dt_cell to_dt c = (case to_dt c of None \<Rightarrow> Null | Some t \<Rightarrow> Ts t)"

definition normalize_common :: "(cell \<Rightarrow> string) \<Rightarrow> (cell \<Rightarrow> int option) \<Rightarrow> table \<Rightarrow> table" where
  "normalize_common fmt to_dt df =
     (let df1 = (if ''email'' \<in> set (cols df) then set_col ''email'' (norm_email fmt) df else df);
          df2 = (if ''timestamp'' \<in> set (cols df1)
                 then set_col ''timestamp'' (\<lambda>x. dt_cell to_dt (col ''timestamp'' x)) df1 else df1)
      in df2)"

definition num_cell :: "cell \<Rightarrow> cell" where
  "num_cell c = (case to_numeric c of None \<Rightarrow> Null | Some v \<Rightarrow> Num v)"

definition cast_numeric :: "table \<Rightarrow> string list \<Rightarrow> table" where
  "cast_numeric df cs =
     foldl (\<lambda>d c. if c \<in> set (cols d) then set_col c (\<lambda>x. num_cell (col c x)) d else d) df cs"

section \<open>Categorical mapper\<close>

definition ADHERENCE_MAP :: "(string \<times> real) list" where
  "ADHERENCE_MAP = [(''Most days'', 1), (''Some days'', 1 / 2), (''Very few days'', 0)]"

definition SLEEP_BIN_MAP :: "(string \<times> real) list" where
  "SLEEP_BIN_MAP = [(''Less than 5'', 9 / 2), (''5-6'', 11 / 2), (''6-7'', 13 / 2), (''7-8'', 15 / 2),
                    (''8+'', 17 / 2)]"

text \<open>\<open>Series.map(dict)\<close>: a value that is not a key of the dictionary becomes missing.\<close>

definition map_dict :: "(string \<times> real) list \<Rightarrow> cell \<Rightarrow> cell" where
  "map_dict d c =
     (case c of
        Str s \<Rightarrow> (case map_of d s of None \<Rightarrow> Null | Some v \<Rightarrow> Num v)
      | _ \<Rightarrow> Null)"

section \<open>Merger and delta engine\<close>

text \<open>
  \<open>weekly.merge(intake, on="email", how="left", suffixes=("", "_intake"))\<close>. The columns of the
  result are those of the weekly table followed by those of the intake table other than
  \<open>email\<close>, where an intake column whose name the weekly table also has is renamed with the
  suffix. A result with two columns of one name is not a table of this model: the model
  refuses it, as pandas does when the suffix produces the clash among the columns of one side.
  Every weekly row, in order, is paired with each intake row of the same \<open>email\<close>, in the intake's order, or with missing
  values when there is none; the result gets a fresh index 0, 1, ...
\<close>

definition intake_names :: "table \<Rightarrow> table \<Rightarrow> (string \<times> string) list" where
  "intake_names weekly intake =
     map (\<lambda>c. (if c \<in> set (cols weekly) then c @ ''_intake'' else c, c))
         (filter (\<lambda>c. c \<noteq> ''email'') (cols intake))"

definition merged_cols :: "table \<Rightarrow> table \<Rightarrow> string list" where
  "merged_cols weekly intake = cols weekly @ map fst (intake_names weekly intake)"

definition join_row :: "table \<Rightarrow> table \<Rightarrow> row \<Rightarrow> row option \<Rightarrow> row" where
  "join_row weekly intake w io =
     (\<lambda>c. if c \<in> set (cols weekly) then w c
          else (case map_of (intake_names weekly intake) c of
                  None \<Rightarrow> Null
                | Some c0 \<Rightarrow> (case io of None \<Rightarrow> Null | Some i \<Rightarrow> i c0)))"

definition matching :: "table \<Rightarrow> nat \<times> row \<Rightarrow> (nat \<times> row) list" where
  "matching intake x = filter (\<lambda>i. col ''email'' i = col ''email'' x) (rows intake)"

definition join_rows :: "table \<Rightarrow> table \<Rightarrow> nat \<times> row \<Rightarrow> row list" where
  "join_rows weekly intake x =
     (case matching intake x of
        [] \<Rightarrow> [join_row weekly intake (snd x) None]
      | ms \<Rightarrow> map (\<lambda>i. join_row weekly intake (snd x) (Some (snd i))) ms)"

definition merge_left :: "table \<Rightarrow> table \<Rightarrow> error + table" where
  "merge_left weekly intake =
     (if ''email'' \<notin> set (cols weekly) \<or> ''email'' \<notin> set (cols intake) then Inl KeyError
      else if \<not> distinct (merged_cols weekly intake) then Inl MergeError
      else
        (let rs = concat (map (join_rows weekly intake) (rows weekly))
         in Inr \<lparr>cols = merged_cols weekly intake, rows = zip [0..<length rs] rs\<rparr>))"

text \<open>
  Column arithmetic \<open>a - b\<close> on one row: numbers subtract, a missing operand gives a missing
  result, and a text operand makes Python raise a TypeError.
\<close>

definition is_numeric :: "cell \<Rightarrow> bool" where
  "is_numeric c = (case c of Null \<Rightarrow> True | IntV n \<Rightarrow> True | Num v \<Rightarrow> True | _ \<Rightarrow> False)"

definition num_of :: "cell \<Rightarrow> real option" where
  "num_of c = (case c of IntV n \<Rightarrow> Some (real_of_int n) | Num v \<Rightarrow> Some v | _ \<Rightarrow> None)"

definition bind_err :: "error + 'a \<Rightarrow> ('a \<Rightarrow> error + 'b) \<Rightarrow> error + 'b" where
  "bind_err m f = (case m of Inl e \<Rightarrow> Inl e | Inr v \<Rightarrow> f v)"

definition sub_cells :: "cell \<Rightarrow> cell \<Rightarrow> cell" where
  "sub_cells a b =
     (case (num_of a, num_of b) of (Some v, Some w) \<Rightarrow> Num (v - w) | _ \<Rightarrow> Null)"

definition add_delta :: "string \<Rightarrow> string \<Rightarrow> string \<Rightarrow> table \<Rightarrow> error + table" where
  "add_delta d a b t =
     (if has_cols [a, b] t then
        (if \<forall>x \<in> set (rows t). is_numeric (col a x) \<and> is_numeric (col b x)
         then Inr (set_col d (\<lambda>x. sub_cells (col a x) (col b x)) t)
         else Inl TypeError)
      else Inr t)"

definition week_cell :: "cell \<Rightarrow> cell" where
  "week_cell c = (case parse_week_cell c of Inr (Some n) \<Rightarrow> IntV n | _ \<Rightarrow> Null)"

definition intake_numeric :: "string list" where
  "intake_numeric = [''bodyweight_lbs_baseline'', ''rhr_bpm_baseline'', ''sleep_quality_baseline'',
     ''energy_baseline'', ''stress_baseline'', ''classes_per_week_baseline'',
     ''whole_food_days_per_week_baseline'', ''alcohol_days_per_week_baseline'',
     ''takeout_per_week_baseline'']"

definition weekly_numeric :: "string list" where
  "weekly_numeric = [''bodyweight_lbs_weekly'', ''rhr_bpm_weekly'', ''energy_weekly'',
     ''sleep_quality_weekly'', ''stress_weekly'', ''alcohol_days_weekly'', ''class_attended_weekly'']"

text \<open>The cleaning of the two tables before the join (lines 111 to 140 of the backend).\<close>

definition clean_intake :: "(cell \<Rightarrow> string) \<Rightarrow> (cell \<Rightarrow> int option) \<Rightarrow> table \<Rightarrow> table" where
  "clean_intake fmt to_dt intake =
     (let i1 = normalize_common fmt to_dt intake;
          i2 = (if ''sleep_hours_baseline'' \<in> set (cols i1)
                then set_col ''sleep_hours_numeric_baseline''
                       (\<lambda>x. map_dict SLEEP_BIN_MAP (col ''sleep_hours_baseline'' x)) i1
                else i1)
      in cast_numeric i2 intake_numeric)"

definition clean_weekly :: "(cell \<Rightarrow> string) \<Rightarrow> (cell \<Rightarrow> int option) \<Rightarrow> table \<Rightarrow> error + table" where
  "clean_weekly fmt to_dt weekly =
     (let w1 = normalize_common fmt to_dt weekly in
      if ''week_number'' \<notin> set (cols w1) then Inl KeyError
      else
        bind_err (parse_week_number (map (col ''week_number'') (rows w1))) (\<lambda>_.
          let w2 = set_col ''week_number'' (\<lambda>x. week_cell (col ''week_number'' x)) w1;
              w3 = (if ''nutrition_adherence_weekly'' \<in> set (cols w2)
                    then set_col ''adherence_score_weekly''
                           (\<lambda>x. map_dict ADHERENCE_MAP (col ''nutrition_adherence_weekly'' x)) w2
                    else w2);
              w4 = (if ''sleep_hours_weekly'' \<in> set (cols w3)
                    then set_col ''sleep_hours_numeric_weekly''
                           (\<lambda>x. map_dict SLEEP_BIN_MAP (col ''sleep_hours_weekly'' x)) w3
                    else w3)
          in Inr (cast_numeric w4 weekly_numeric)))"

definition prep_data ::
  "(cell \<Rightarrow> string) \<Rightarrow> (cell \<Rightarrow> int option) \<Rightarrow> table \<Rightarrow> table \<Rightarrow> error + table \<times> table" where
  "prep_data fmt to_dt intake weekly =
     bind_err (clean_weekly fmt to_dt weekly) (\<lambda>wk.
       bind_err (merge_left wk (clean_intake fmt to_dt intake)) (\<lambda>m0.
         bind_err (add_delta ''delta_bodyweight_lbs'' ''bodyweight_lbs_weekly'' ''bodyweight_lbs_baseline'' m0) (\<lambda>m1.
           bind_err (add_delta ''delta_rhr_bpm'' ''rhr_bpm_weekly'' ''rhr_bpm_baseline'' m1) (\<lambda>m2.
             bind_err (add_delta ''delta_energy'' ''energy_weekly'' ''energy_baseline'' m2) (\<lambda>m3.
               Inr (m3, wk))))))"

section \<open>Summary metrics\<close>

text \<open>
  The week-number column of a merged table is a nullable integer column; its cells are read as
  numbers, and a cell that is not a number counts as missing in a sort. \<open>groupby("email")\<close>
  leaves out the rows without an identity, and \<open>tail(1)\<close> keeps the last row of every group.
\<close>

definition week_key :: "nat \<times> row \<Rightarrow> real option" where
  "week_key x = num_of (col ''week_number'' x)"

definition numeric_weeks :: "table \<Rightarrow> bool" where
  "numeric_weeks t = (\<forall>x \<in> set (rows t). col ''week_number'' x = Null \<or> num_of (col ''week_number'' x) \<noteq> None)"

definition group_tail :: "(nat \<times> row \<Rightarrow> cell) \<Rightarrow> (nat \<times> row) list \<Rightarrow> (nat \<times> row) list" where
  "group_tail key xs = drop_duplicates_last key (filter (\<lambda>x. key x \<noteq> Null) xs)"

definition latest_rows :: "((real \<times> nat \<times> row) list \<Rightarrow> (real \<times> nat \<times> row) list) \<Rightarrow> table \<Rightarrow> (nat \<times> row) list" where
  "latest_rows srt merged =
     group_tail (col ''email'')
       (sort_values srt week_key (filter (\<lambda>x. col ''week_number'' x \<noteq> Null) (rows merged)))"

text \<open>\<open>weight_change[weight_change < 0].abs().sum()\<close> for one row: what it adds to the sum.\<close>

definition lost :: "cell \<Rightarrow> real" where
  "lost d = (case num_of d of None \<Rightarrow> 0 | Some v \<Rightarrow> if v < 0 then \<bar>v\<bar> else 0)"

definition weight_needed :: "string list" where
  "weight_needed = [''email'', ''week_number'', ''bodyweight_lbs_weekly'', ''bodyweight_lbs_baseline'']"

definition compute_total_weight_lost ::
  "((real \<times> nat \<times> row) list \<Rightarrow> (real \<times> nat \<times> row) list) \<Rightarrow> table \<Rightarrow> error + real" where
  "compute_total_weight_lost srt merged =
     (if is_empty merged then Inr 0
      else if \<not> has_cols weight_needed merged then Inr 0
      else
        (let latest = latest_rows srt merged in
         if \<forall>x \<in> set latest. is_numeric (col ''bodyweight_lbs_weekly'' x)
                               \<and> is_numeric (col ''bodyweight_lbs_baseline'' x)
         then Inr (sum_list (map (\<lambda>x. lost (sub_cells (col ''bodyweight_lbs_weekly'' x)
                                                       (col ''bodyweight_lbs_baseline'' x))) latest))
         else Inl TypeError))"

text \<open>\<open>int(v)\<close> truncates towards zero.\<close>

definition py_int :: "real \<Rightarrow> int" where
  "py_int v = (if 0 \<le> v then \<lfloor>v\<rfloor> else \<lceil>v\<rceil>)"

definition current_week :: "table \<Rightarrow> int option" where
  "current_week merged =
     (if is_empty merged \<or> ''week_number'' \<notin> set (cols merged) then None
      else
        (let weeks = concat (map (\<lambda>x. case to_numeric (col ''week_number'' x) of None \<Rightarrow> [] | Some v \<Rightarrow> [v])
                                 (rows merged))
         in if weeks = [] then None else Some (py_int (Max (set weeks)))))"

section \<open>Cohort aggregator\<close>

definition summary_cols :: "string list" where
  "summary_cols = [''week_number'', ''n_participants'', ''bodyweight_mean'', ''rhr_mean'',
     ''energy_mean'', ''adherence_mean'', ''sleep_hours_mean'', ''stress_mean'']"

text \<open>The named mean aggregations: the result column and its source column.\<close>

definition summary_aggs :: "(string \<times> string) list" where
  "summary_aggs = [(''bodyweight_mean'', ''bodyweight_lbs_weekly''), (''rhr_mean'', ''rhr_bpm_weekly''),
     (''energy_mean'', ''energy_weekly''), (''adherence_mean'', ''adherence_score_weekly''),
     (''sleep_hours_mean'', ''sleep_hours_numeric_weekly''), (''stress_mean'', ''stress_weekly'')]"

text \<open>\<open>mean\<close> leaves out the missing values; the mean of nothing is missing.\<close>

definition mean_cells :: "cell list \<Rightarrow> cell" where
  "mean_cells cs =
     (let vs = concat (map (\<lambda>c. case num_of c of None \<Rightarrow> [] | Some v \<Rightarrow> [v]) cs)
      in if vs = [] then Null else Num (sum_list vs / real (length vs)))"

definition nunique :: "cell list \<Rightarrow> cell" where
  "nunique cs = IntV (int (length (remdups (filter (\<lambda>c. c \<noteq> Null) cs))))"

definition summary_row :: "(nat \<times> row) list \<Rightarrow> row" where
  "summary_row g =
     (\<lambda>c. if c = ''week_number'' then col ''week_number'' (hd g)
          else if c = ''n_participants'' then nunique (map (col ''email'') g)
          else (case map_of summary_aggs c of
                  None \<Rightarrow> Null
                | Some src \<Rightarrow> mean_cells (map (col src) g)))"

text \<open>
  \<open>agg\<close> raises a KeyError when a source column of a named aggregation does not exist, and
  \<open>mean\<close> a TypeError on a text. The groups come out in ascending order of the week number,
  one row each, so the final sort by week number has nothing to reorder.
\<close>

definition cohort_weekly_summary :: "table \<Rightarrow> error + table" where
  "cohort_weekly_summary merged =
     (if is_empty merged \<or> ''week_number'' \<notin> set (cols merged) then Inr \<lparr>cols = summary_cols, rows = []\<rparr>
      else if \<not> has_cols (''email'' # map snd summary_aggs) merged then Inl KeyError
      else
        (let kept = filter (\<lambda>x. week_key x \<noteq> None) (rows merged);
             weeks = sort (remdups (concat (map (\<lambda>x. case week_key x of None \<Rightarrow> [] | Some k \<Rightarrow> [k]) kept)));
             groups = map (\<lambda>k. filter (\<lambda>x. week_key x = Some k) kept) weeks
         in if list_all (\<lambda>x. list_all (\<lambda>src. is_numeric (col src x)) (map snd summary_aggs)) kept
            then Inr \<lparr>cols = summary_cols, rows = zip [0..<length groups] (map summary_row groups)\<rparr>
            else Inl TypeError))"

section \<open>Action-list rule engine\<close>

text \<open>\<open>merged["week_number"] == wk\<close> on one cell.\<close>

definition cell_eq_int :: "cell \<Rightarrow> int \<Rightarrow> bool" where
  "cell_eq_int c k = (case num_of c of None \<Rightarrow> False | Some v \<Rightarrow> v = real_of_int k)"

text \<open>
  Python's \<open>sorted\<close> on the missing identities: texts are ordered as texts, numbers as numbers;
  comparing a text with a number raises a TypeError. The sort is stable.
\<close>

definition str_of :: "cell \<Rightarrow> string" where
  "str_of c = (case c of Str s \<Rightarrow> s | _ \<Rightarrow> [])"

definition is_str :: "cell \<Rightarrow> bool" where
  "is_str c = (case c of Str s \<Rightarrow> True | _ \<Rightarrow> False)"

definition sorted_cells :: "cell list \<Rightarrow> error + cell list" where
  "sorted_cells cs =
     (if \<forall>c \<in> set cs. is_str c then Inr (sort_key str_of cs)
      else if length cs \<le> 1 then Inr cs
      else if \<forall>c \<in> set cs. num_of c \<noteq> None
        then Inr (sort_key (\<lambda>c. case num_of c of None \<Rightarrow> 0 | Some v \<Rightarrow> v) cs)
      else Inl TypeError)"

definition dropna_col :: "string \<Rightarrow> (nat \<times> row) list \<Rightarrow> cell list" where
  "dropna_col c xs = filter (\<lambda>v. v \<noteq> Null) (map (col c) xs)"

definition missing_checkin :: "table \<Rightarrow> table \<Rightarrow> (nat \<times> row) list \<Rightarrow> error + table" where
  "missing_checkin intake merged this_week =
     (let submitted_emails = (if ''email'' \<in> set (cols merged) then dropna_col ''email'' this_week else []);
          all_emails = (if ''email'' \<in> set (cols intake) then dropna_col ''email'' (rows intake) else [])
      in bind_err (sorted_cells (remdups (filter (\<lambda>e. e \<notin> set submitted_emails) all_emails)))
           (\<lambda>missing. Inr \<lparr>cols = [''email''],
                            rows = zip [0..<length missing] (map (\<lambda>e. (\<lambda>c. Null)(''email'' := e)) missing)\<rparr>))"

text \<open>
  A boolean Series is a list of values with their index labels. \<open>pd.Series([False] * n)\<close> gets
  the labels 0, 1, ... up to n - 1, whatever the labels of the table are.
\<close>

type_synonym series = "(nat \<times> bool) list"

definition range_false :: "nat \<Rightarrow> series" where
  "range_false n = map (\<lambda>i. (i, False)) [0..<n]"

text \<open>
  \<open>left | right\<close>: with equal indexes the values are combined position by position. Otherwise
  pandas aligns the two Series on the union of their labels first, and a label that the left
  operand lacks gives False whatever the right operand holds, while a label that only the
  right operand lacks counts as False there.
\<close>

definition series_or :: "series \<Rightarrow> series \<Rightarrow> series" where
  "series_or l r =
     (if map fst l = map fst r then map (\<lambda>(a, b). (fst a, snd a \<or> snd b)) (zip l r)
      else map (\<lambda>i. (i, (case map_of l i of
                            None \<Rightarrow> False
                          | Some a \<Rightarrow> a \<or> (case map_of r i of None \<Rightarrow> False | Some b \<Rightarrow> b))))
               (sort (remdups (map fst l @ map fst r))))"

text \<open>
  \<open>at_risk["risk_flag"] = flags\<close> aligns the Series on the labels of the table: a row whose
  label the Series lacks gets a missing flag.
\<close>

definition assign_flags :: "series \<Rightarrow> (nat \<times> row) list \<Rightarrow> ((nat \<times> row) \<times> bool option) list" where
  "assign_flags flags xs =
     (if map fst flags = map fst xs then zip xs (map (Some \<circ> snd) flags)
      else map (\<lambda>x. (x, map_of flags (fst x))) xs)"

text \<open>\<open>at_risk[at_risk["risk_flag"]]\<close>: a mask with a missing value raises a ValueError.\<close>

definition mask_rows :: "((nat \<times> row) \<times> bool option) list \<Rightarrow> error + (nat \<times> row) list" where
  "mask_rows fs =
     (if \<exists>f \<in> set fs. snd f = None then Inl ValueError
      else Inr (map (\<lambda>f. (fst (fst f), (snd (fst f))(''risk_flag'' := Bool True)))
                    (filter (\<lambda>f. snd f = Some True) fs)))"

text \<open>A comparison of a column with a number: false on a missing value, a TypeError on a text.\<close>

definition cmp_cell :: "(real \<Rightarrow> bool) \<Rightarrow> cell \<Rightarrow> error + bool" where
  "cmp_cell p c =
     (case c of
        Null \<Rightarrow> Inr False
      | IntV n \<Rightarrow> Inr (p (real_of_int n))
      | Num v \<Rightarrow> Inr (p v)
      | Bool b \<Rightarrow> Inr (p (if b then 1 else 0))
      | _ \<Rightarrow> Inl TypeError)"

definition very_few :: "(cell \<Rightarrow> string) \<Rightarrow> nat \<times> row \<Rightarrow> bool" where
  "very_few fmt x = (strip (astype_str fmt (col ''nutrition_adherence_weekly'' x)) = ''Very few days'')"

definition stress_sleep :: "nat \<times> row \<Rightarrow> error + bool" where
  "stress_sleep x =
     bind_err (cmp_cell (\<lambda>v. 8 \<le> v) (col ''stress_weekly'' x)) (\<lambda>a.
       bind_err (cmp_cell (\<lambda>v. v \<le> 4) (col ''sleep_quality_weekly'' x)) (\<lambda>b. Inr (a \<and> b)))"

definition stress_key :: "nat \<times> row \<Rightarrow> real option" where
  "stress_key x = num_of (col ''stress_weekly'' x)"

definition at_risk_rows ::
  "((real \<times> nat \<times> row) list \<Rightarrow> (real \<times> nat \<times> row) list) \<Rightarrow> (cell \<Rightarrow> string) \<Rightarrow> string list
     \<Rightarrow> (nat \<times> row) list \<Rightarrow> error + table" where
  "at_risk_rows srt fmt cs this_week =
     (let rule_adherence =
            (if ''nutrition_adherence_weekly'' \<in> set cs
             then map (\<lambda>x. (fst x, very_few fmt x)) this_week
             else range_false (length this_week))
      in bind_err
           (if set [''stress_weekly'', ''sleep_quality_weekly''] \<subseteq> set cs
            then sequence_err (map (\<lambda>x. bind_err (stress_sleep x) (\<lambda>b. Inr (fst x, b))) this_week)
            else Inr (range_false (length this_week)))
           (\<lambda>rule_stress_sleep.
              bind_err (mask_rows (assign_flags (series_or rule_adherence rule_stress_sleep) this_week))
                (\<lambda>flagged.
                   Inr \<lparr>cols = (if ''risk_flag'' \<in> set cs then cs else cs @ [''risk_flag'']),
                        rows = (if ''stress_weekly'' \<in> set cs
                                then sort_values_desc srt stress_key flagged else flagged)\<rparr>)))"

definition coaching_action_list ::
  "((real \<times> nat \<times> row) list \<Rightarrow> (real \<times> nat \<times> row) list) \<Rightarrow> (cell \<Rightarrow> string) \<Rightarrow> table \<Rightarrow> table
     \<Rightarrow> error + table \<times> table" where
  "coaching_action_list srt fmt intake merged =
     (case current_week merged of
        None \<Rightarrow> Inr (\<lparr>cols = [''email''], rows = []\<rparr>, empty_table)
      | Some wk \<Rightarrow>
          (let this_week = filter (\<lambda>x. cell_eq_int (col ''week_number'' x) wk) (rows merged)
           in bind_err (missing_checkin intake merged this_week) (\<lambda>missing_df.
                bind_err (at_risk_rows srt fmt (cols merged) this_week) (\<lambda>at_risk.
                  Inr (missing_df, at_risk)))))"

section \<open>Notions of the specification and of the proofs\<close>

text \<open>
  The words of the specification for the action list: the week numbers present in a merged
  table whose week column is a nullable integer column, and the identities present in a list
  of rows of a table (none when the table has no identity column).
\<close>

definition int_weeks :: "table \<Rightarrow> bool" where
  "int_weeks t = (\<forall>x \<in> set (rows t). col ''week_number'' x = Null \<or> (\<exists>n. col ''week_number'' x = IntV n))"

definition week_numbers :: "table \<Rightarrow> int set" where
  "week_numbers t = {n. \<exists>x \<in> set (rows t). col ''week_number'' x = IntV n}"

definition identities :: "table \<Rightarrow> (nat \<times> row) list \<Rightarrow> cell set" where
  "identities t xs = (if ''email'' \<in> set (cols t) then {e \<in> col ''email'' ` set xs. e \<noteq> Null} else {})"

definition week_rows :: "table \<Rightarrow> int \<Rightarrow> (nat \<times> row) list" where
  "week_rows t wk = filter (\<lambda>x. col ''week_number'' x = IntV wk) (rows t)"

text \<open>
  The at-risk predicate on a row of a merged table \<open>t\<close>: rule A on the adherence text as the
  code reads it (converted to text, surrounding whitespace removed), or rule B when the table
  has both columns and both values are numbers. A flagged row is returned with its flag, and
  the output is in descending order of a key with the rows without a key last.
\<close>

definition rule_b :: "nat \<times> row \<Rightarrow> bool" where
  "rule_b x =
     (case (num_of (col ''stress_weekly'' x), num_of (col ''sleep_quality_weekly'' x)) of
        (Some s, Some q) \<Rightarrow> 8 \<le> s \<and> q \<le> 4
      | _ \<Rightarrow> False)"


definition flag_row :: "nat \<times> row \<Rightarrow> nat \<times> row" where
  "flag_row x = (fst x, (snd x)(''risk_flag'' := Bool True))"

definition desc_nulls_last :: "('a \<Rightarrow> real option) \<Rightarrow> 'a list \<Rightarrow> bool" where
  "desc_nulls_last key xs =
     (\<exists>ks n. map key xs = map Some ks @ replicate n None \<and> sorted (rev ks))"

definition text_identities :: "table \<Rightarrow> bool" where
  "text_identities t = (\<forall>x \<in> set (rows t). col ''email'' x = Null \<or> is_str (col ''email'' x))"

definition numeric_rule_b :: "table \<Rightarrow> bool" where
  "numeric_rule_b t =
     (\<forall>x \<in> set (rows t). is_numeric (col ''stress_weekly'' x) \<and> is_numeric (col ''sleep_quality_weekly'' x))"

text \<open>
  The words of the specification for the total weight lost, written without the functions of
  the code. The number in a cell, if it holds one. The week of a row. A choice \<open>ls\<close> of latest
  submissions of a merged table: one row for every identity that has a row with a week
  number, with the largest week number of that identity. The weekly-minus-baseline body
  weight of a row, which exists when both weights are numbers. The negative ones among the
  deltas of a list of rows; the total weight lost is the sum of their absolute values.
\<close>

definition cell_number :: "cell \<Rightarrow> real option" where
  "cell_number c = (case c of IntV n \<Rightarrow> Some (real_of_int n) | Num v \<Rightarrow> Some v | _ \<Rightarrow> None)"

definition week_of :: "nat \<times> row \<Rightarrow> real option" where
  "week_of x = cell_number (snd x ''week_number'')"

definition latest_submissions :: "table \<Rightarrow> (nat \<times> row) list \<Rightarrow> bool" where
  "latest_submissions merged ls =
     (distinct (map (col ''email'') ls)
      \<and> (\<forall>l \<in> set ls. l \<in> set (rows merged) \<and> col ''email'' l \<noteq> Null \<and> week_of l \<noteq> None)
      \<and> (\<forall>x \<in> set (rows merged). col ''email'' x \<noteq> Null \<and> col ''week_number'' x \<noteq> Null \<longrightarrow>
            (\<exists>l \<in> set ls. col ''email'' l = col ''email'' x
                 \<and> (\<exists>u v. week_of x = Some u \<and> week_of l = Some v \<and> u \<le> v))))"

definition weekly_minus_baseline :: "nat \<times> row \<Rightarrow> real option" where
  "weekly_minus_baseline x =
     (case (cell_number (snd x ''bodyweight_lbs_weekly''), cell_number (snd x ''bodyweight_lbs_baseline'')) of
        (Some weekly, Some baseline) \<Rightarrow> Some (weekly - baseline)
      | _ \<Rightarrow> None)"

definition negative_deltas :: "(nat \<times> row) list \<Rightarrow> real list" where
  "negative_deltas ls =
     filter (\<lambda>d. d < 0) (concat (map (\<lambda>l. case weekly_minus_baseline l of None \<Rightarrow> [] | Some d \<Rightarrow> [d]) ls))"

definition numeric_weights :: "table \<Rightarrow> bool" where
  "numeric_weights t =
     (\<forall>x \<in> set (rows t). is_numeric (col ''bodyweight_lbs_weekly'' x)
                          \<and> is_numeric (col ''bodyweight_lbs_baseline'' x))"




text \<open>
  A week label that the week parser reads without raising, as a missing value or as an
  integer of at most twelve digits (far inside the range in which float64 holds every integer
  exactly, so that reading the parsed column as reals loses nothing).
\<close>

definition week_label_ok :: "cell \<Rightarrow> bool" where
  "week_label_ok c =
     (case parse_week_cell c of
        Inl e \<Rightarrow> False
      | Inr None \<Rightarrow> True
      | Inr (Some n) \<Rightarrow> \<bar>n\<bar> < 10 ^ 12)"







text \<open>A list in the order a sort by one column leaves: ascending keys, then the rows without a key.\<close>

definition nulls_last_sorted :: "('a \<Rightarrow> 'k::linorder option) \<Rightarrow> 'a list \<Rightarrow> bool" where
  "nulls_last_sorted key xs =
     (\<exists>a b. xs = a @ b \<and> (\<forall>x \<in> set a. key x \<noteq> None) \<and> sorted (map fst (with_keys key a))
            \<and> (\<forall>x \<in> set b. key x = None))"

text \<open>The rows of a table that share a deduplication key, in the table's order.\<close>

definition key_group :: "table \<Rightarrow> cell \<times> cell \<Rightarrow> (nat \<times> row) list" where
  "key_group t k = filter (\<lambda>x. dedupe_key x = k) (rows t)"

section \<open>Example tables\<close>

definition wrow :: "string \<Rightarrow> int \<Rightarrow> cell \<Rightarrow> row" where
  "wrow e w t = (\<lambda>c. if c = ''email'' then Str e else if c = ''week_number'' then IntV w
                     else if c = ''timestamp'' then t else Null)"

definition weekly_ties :: table where
  "weekly_ties = \<lparr>cols = [''email'', ''week_number'', ''timestamp''],
     rows = [(0, wrow ''a'' 1 (Ts 5)), (1, wrow ''a'' 1 (Ts 7)), (2, wrow ''a'' 1 (Ts 7)), (3, wrow ''b'' 1 (Ts 1))]\<rparr>"


text \<open>
  Instances of the two library parameters for the examples: nothing is printed for a number,
  and only a cell that is a timestamp already is read as one.
\<close>

definition example_fmt :: "cell \<Rightarrow> string" where
  "example_fmt c = []"

definition example_to_dt :: "cell \<Rightarrow> int option" where
  "example_to_dt c = (case c of Ts t \<Rightarrow> Some t | _ \<Rightarrow> None)"

definition row_of :: "(string \<times> cell) list \<Rightarrow> row" where
  "row_of kv = (\<lambda>c. case map_of kv c of None \<Rightarrow> Null | Some v \<Rightarrow> v)"

text \<open>The end-to-end scenario of the specification: one participant, one check-in.\<close>

definition intake_one :: table where
  "intake_one = \<lparr>cols = [''email'', ''bodyweight_lbs_baseline'', ''rhr_bpm_baseline''],
     rows = [(0, row_of [(''email'', Str ''a@x.com''), (''bodyweight_lbs_baseline'', IntV 200),
                         (''rhr_bpm_baseline'', IntV 70)])]\<rparr>"






text \<open>A weekly table whose week label is read as an infinite float.\<close>

definition weekly_infinity :: table where
  "weekly_infinity = \<lparr>cols = [''email'', ''week_number''],
     rows = [(0, row_of [(''email'', Str ''a@x.com''), (''week_number'', Str ''Week inf'')])]\<rparr>"

text \<open>The missing-check-in example: baseline identities a, b, c; in week 2 only a and c submit.\<close>

definition intake_abc :: table where
  "intake_abc = \<lparr>cols = [''email''],
     rows = [(0, row_of [(''email'', Str ''a'')]), (1, row_of [(''email'', Str ''b'')]),
             (2, row_of [(''email'', Str ''c'')])]\<rparr>"

definition merged_abc :: table where
  "merged_abc = \<lparr>cols = [''email'', ''week_number'', ''nutrition_adherence_weekly''],
     rows = [(0, row_of [(''email'', Str ''a''), (''week_number'', IntV 1),
                         (''nutrition_adherence_weekly'', Str ''Most days'')]),
             (1, row_of [(''email'', Str ''a''), (''week_number'', IntV 2),
                         (''nutrition_adherence_weekly'', Str ''Some days'')]),
             (2, row_of [(''email'', Str ''c''), (''week_number'', IntV 2),
                         (''nutrition_adherence_weekly'', Str ''Very few days'')])]\<rparr>"

text \<open>An intake table whose identity column holds a text and a number.\<close>

definition intake_mixed :: table where
  "intake_mixed = \<lparr>cols = [''email''],
     rows = [(0, row_of [(''email'', Str ''b'')]), (1, row_of [(''email'', IntV 5)])]\<rparr>"





definition merged_bare :: table where
  "merged_bare = \<lparr>cols = [''email'', ''week_number''],
     rows = [(0, row_of [(''email'', Str ''a''), (''week_number'', IntV 1)]),
             (1, row_of [(''email'', Str ''b''), (''week_number'', IntV 2)])]\<rparr>"

text \<open>
  Four participants: by week 2 a weighs 5 lbs less than at baseline (and weighed 20 less in
  week 1), b weighs 7 more, c has no weekly weight, and d weighs 3 less in week 3; one
  check-in of a has no week number.
\<close>

definition weight_row :: "string \<Rightarrow> cell \<Rightarrow> cell \<Rightarrow> cell \<Rightarrow> row" where
  "weight_row e w a b =
     row_of [(''email'', Str e), (''week_number'', w), (''bodyweight_lbs_weekly'', a),
             (''bodyweight_lbs_baseline'', b)]"

definition merged_weights :: table where
  "merged_weights = \<lparr>cols = [''email'', ''week_number'', ''bodyweight_lbs_weekly'', ''bodyweight_lbs_baseline''],
     rows = [(0, weight_row ''a'' (IntV 2) (Num 195) (Num 200)),
             (1, weight_row ''a'' (IntV 1) (Num 180) (Num 200)),
             (2, weight_row ''b'' (IntV 2) (Num 207) (Num 200)),
             (3, weight_row ''c'' (IntV 1) Null (Num 180)),
             (4, weight_row ''a'' Null (Num 100) (Num 200)),
             (5, weight_row ''d'' (IntV 3) (Num 150) (Num 153))]\<rparr>"

text \<open>A merged table with every column the summary reads: two check-ins in week 1, one in week 2.\<close>

definition full_row :: "string \<Rightarrow> int \<Rightarrow> real \<Rightarrow> cell \<Rightarrow> row" where
  "full_row e w bw adh =
     row_of [(''email'', Str e), (''week_number'', IntV w), (''bodyweight_lbs_weekly'', Num bw),
             (''rhr_bpm_weekly'', Null), (''energy_weekly'', Null), (''adherence_score_weekly'', adh),
             (''sleep_hours_numeric_weekly'', Null), (''stress_weekly'', Null)]"

definition merged_full :: table where
  "merged_full = \<lparr>cols = [''email'', ''week_number'', ''bodyweight_lbs_weekly'', ''rhr_bpm_weekly'',
                          ''energy_weekly'', ''adherence_score_weekly'', ''sleep_hours_numeric_weekly'',
                          ''stress_weekly''],
     rows = [(0, full_row ''b'' 2 190 (Num 1)),
             (1, full_row ''a'' 1 195 (Num 1)),
             (2, full_row ''b'' 1 205 Null)]\<rparr>"

section \<open>Properties of the week-number parser\<close>

lemmas parse_eval = parse_week_number_def parse_week_text_def astype_Int64_def in_int64_def
  to_numeric_str_def parse_decimal_def infinity_token_def ascii_lower_char_def
  strip_def py_space_def c_space_def is_digit_def digits_val_def take_sign_def take_exponent_def
  scale10_def Let_def

text \<open>
  C9. The week labels \<open>Week 3\<close>, \<open> 3 \<close> and \<open>3\<close> parse to 3 and \<open>TBD\<close> parses to the missing
  integer; but the parser does raise: on the label \<open>3.5\<close> the cast to the nullable integer
  type fails with a TypeError.
\<close>

theorem parse_week_number_fraction_raises:
  "parse_week_number [Str ''Week 3'', Str '' 3 '', Str ''3'', Str ''TBD''] = Inr [Some 3, Some 3, Some 3, None]
   \<and> parse_week_number [Str ''3.5''] = Inl TypeError"
  by (simp add: parse_eval)

section \<open>Properties of the deduplicator\<close>

lemma ddl_set: "set (drop_duplicates_last key xs) \<subseteq> set xs"
  by (induction xs) auto

lemma ddl_keys: "key ` set (drop_duplicates_last key xs) = key ` set xs"
  by (induction xs) auto

lemma ddl_distinct: "distinct (map key (drop_duplicates_last key xs))"
proof (induction xs)
  case Nil then show ?case by simp
next
  case (Cons x xs)
  have "key x \<notin> key ` set xs \<Longrightarrow> key x \<notin> key ` set (drop_duplicates_last key xs)"
    by (simp add: ddl_keys)
  with Cons show ?case by auto
qed

lemma ddl_filter_none: "k \<notin> key ` set xs \<Longrightarrow> filter (\<lambda>x. key x = k) (drop_duplicates_last key xs) = []"
  using ddl_set[of key xs] by (auto simp: filter_empty_conv)

lemma ddl_filter_last:
  "k \<in> key ` set xs \<Longrightarrow>
   filter (\<lambda>x. key x = k) (drop_duplicates_last key xs) = [last (filter (\<lambda>x. key x = k) xs)]"
proof (induction xs)
  case Nil then show ?case by simp
next
  case (Cons x xs)
  show ?case
  proof (cases "k \<in> key ` set xs")
    case True
    then have ne: "filter (\<lambda>x. key x = k) xs \<noteq> []" by (auto simp: filter_empty_conv)
    from True Cons.IH have ih: "filter (\<lambda>x. key x = k) (drop_duplicates_last key xs) = [last (filter (\<lambda>x. key x = k) xs)]" by simp
    show ?thesis using True ih ne by auto
  next
    case False
    with Cons.prems have kx: "key x = k" by auto
    from False have e: "filter (\<lambda>x. key x = k) xs = []" by (auto simp: filter_empty_conv)
    from False have e2: "filter (\<lambda>x. key x = k) (drop_duplicates_last key xs) = []" by (rule ddl_filter_none)
    show ?thesis using kx False e e2 by auto
  qed
qed

lemma ddl_id: "distinct (map key xs) \<Longrightarrow> drop_duplicates_last key xs = xs"
  by (induction xs) auto

lemma dup_none: "distinct (map key xs) \<Longrightarrow> filter (duplicated_any key xs) xs = []"
proof -
  assume d: "distinct (map key xs)"
  { fix x assume x: "x \<in> set xs"
    have "length (filter (\<lambda>y. key y = key x) xs) = count (mset (map key xs)) (key x)"
      by (induction xs) auto
    also have "\<dots> \<le> 1" using d by (simp add: distinct_count_atmost_1)
    finally have "\<not> duplicated_any key xs x" by (simp add: duplicated_any_def) }
  then show ?thesis by (auto simp: filter_empty_conv)
qed

lemma with_keys_snd: "map snd (with_keys key xs) = filter (\<lambda>x. key x \<noteq> None) xs"
  by (induction xs) (auto simp: with_keys_def split: option.splits)

lemma with_keys_mem: "p \<in> set (with_keys key xs) \<Longrightarrow> key (snd p) = Some (fst p)"
  by (induction xs) (auto simp: with_keys_def split: option.splits)


lemma sort_values_mset: "sort_ok srt \<Longrightarrow> mset (sort_values srt key xs) = mset xs"
proof -
  assume ok: "sort_ok srt"
  have "mset (map snd (srt (with_keys key xs))) = mset (map snd (with_keys key xs))"
    using ok by (metis mset_map sort_ok_def)
  then show ?thesis
    by (simp add: sort_values_def with_keys_snd)
qed

lemma srt_set: "sort_ok srt \<Longrightarrow> set (srt ks) = set ks"
  by (metis sort_ok_def set_mset_mset)

lemma sorted_last_max: "sorted (map f ys) \<Longrightarrow> y \<in> set ys \<Longrightarrow> f y \<le> f (last ys)"
proof (induction ys)
  case Nil then show ?case by simp
next
  case (Cons a ys)
  show ?case
  proof (cases "ys = []")
    case True with Cons.prems show ?thesis by simp
  next
    case False
    with Cons show ?thesis by auto
  qed
qed

lemma sort_values_group_sorted:
  assumes ok: "sort_ok srt" and P: "\<forall>x \<in> set xs. P x \<longrightarrow> key x \<noteq> None"
  shows "filter P (sort_values srt key xs) = map snd (filter (\<lambda>p. P (snd p)) (srt (with_keys key xs)))"
proof -
  have "filter P (filter (\<lambda>x. key x = None) xs) = []" using P by (auto simp: filter_empty_conv)
  then show ?thesis by (simp add: sort_values_def filter_map o_def)
qed

lemma sort_values_group_max:
  assumes ok: "sort_ok srt" and P: "\<forall>x \<in> set xs. P x \<longrightarrow> key x \<noteq> None"
    and y: "y \<in> set xs" "P y"
  shows "\<exists>t u. key (last (filter P (sort_values srt key xs))) = Some t \<and> key y = Some u \<and> u \<le> t
        \<and> last (filter P (sort_values srt key xs)) \<in> set xs \<and> P (last (filter P (sort_values srt key xs)))"
proof -
  let ?ks = "srt (with_keys key xs)"
  let ?g = "filter (\<lambda>p. P (snd p)) ?ks"
  have g: "filter P (sort_values srt key xs) = map snd ?g" using ok P by (rule sort_values_group_sorted)
  from P y obtain u where u: "key y = Some u" by auto
  then have "(u, y) \<in> set (with_keys key xs)" using y(1) by (induction xs) (auto simp: with_keys_def)
  then have yin: "(u, y) \<in> set ?g" using y(2) srt_set[OF ok] by auto
  then have ne: "?g \<noteq> []" by (metis empty_iff empty_set)
  have "sorted (map fst ?ks)" using ok by (simp add: sort_ok_def)
  then have sg: "sorted (map fst ?g)" by (rule sorted_filter)
  have le: "u \<le> fst (last ?g)" using sorted_last_max[OF sg yin] by simp
  have lin: "last ?g \<in> set ?g" using ne by (rule last_in_set)
  have lin1: "last ?g \<in> set ?ks" and lp: "P (snd (last ?g))" using lin unfolding set_filter by blast+
  have lin2: "last ?g \<in> set (with_keys key xs)" using lin1 srt_set[OF ok] by blast
  have lk: "key (snd (last ?g)) = Some (fst (last ?g))" using lin2 by (rule with_keys_mem)
  have lx: "snd (last ?g) \<in> set xs" using lin2 with_keys_snd[of key xs]
    by (metis (no_types, lifting) filter_is_subset image_eqI list.set_map subsetD)
  have "last (filter P (sort_values srt key xs)) = snd (last ?g)" using g ne by (simp add: last_map)
  then show ?thesis using u le lk lx lp by auto
qed










lemma stable_sort_ok: "sort_ok stable_sort"
  by (simp add: sort_ok_def stable_sort_def)


lemma dedupe_cols: "cols (fst (dedupe_weekly_keep_latest srt weekly)) = cols weekly"
  by (simp add: dedupe_weekly_keep_latest_def Let_def)

lemma dedupe_second_pass:
  assumes ok: "sort_ok srt" and d: "distinct (map dedupe_key xs)"
  shows "drop_duplicates_last dedupe_key (sort_values srt key xs) = sort_values srt key xs"
    and "filter (duplicated_any dedupe_key (sort_values srt key xs)) (sort_values srt key xs) = []"
proof -
  have "mset (map dedupe_key (sort_values srt key xs)) = mset (map dedupe_key xs)"
    using sort_values_mset[OF ok, of key xs] by (metis mset_map)
  then have "distinct (map dedupe_key (sort_values srt key xs))"
    using d by (metis mset_eq_imp_distinct_iff)
  then show "drop_duplicates_last dedupe_key (sort_values srt key xs) = sort_values srt key xs"
    and "filter (duplicated_any dedupe_key (sort_values srt key xs)) (sort_values srt key xs) = []"
    by (rule ddl_id, rule dup_none)
qed

lemma dedupe_twice_mset:
  assumes ok: "sort_ok srt"
  shows "rows (snd (dedupe_weekly_keep_latest srt (fst (dedupe_weekly_keep_latest srt weekly)))) = []
       \<and> mset (rows (fst (dedupe_weekly_keep_latest srt (fst (dedupe_weekly_keep_latest srt weekly)))))
           = mset (rows (fst (dedupe_weekly_keep_latest srt weekly)))
       \<and> cols (fst (dedupe_weekly_keep_latest srt (fst (dedupe_weekly_keep_latest srt weekly))))
           = cols (fst (dedupe_weekly_keep_latest srt weekly))"
proof (cases "has_cols [''email'', ''week_number''] weekly")
  case False
  then show ?thesis by (simp add: dedupe_weekly_keep_latest_def empty_table_def)
next
  case True
  let ?t1 = "fst (dedupe_weekly_keep_latest srt weekly)"
  have c1: "cols ?t1 = cols weekly" by (rule dedupe_cols)
  then have hc1: "has_cols [''email'', ''week_number''] ?t1" using True by (simp add: has_cols_def)
  obtain wk where r1: "rows ?t1 = drop_duplicates_last dedupe_key wk"
    using True by (simp add: dedupe_weekly_keep_latest_def Let_def)
  have d: "distinct (map dedupe_key (rows ?t1))" unfolding r1 by (rule ddl_distinct)
  note sp = dedupe_second_pass[OF ok d]
  show ?thesis
    using hc1 sp[of ts_key] sp[of label_key] sort_values_mset[OF ok, of _ "rows ?t1"]
    by (simp add: dedupe_weekly_keep_latest_def[of srt ?t1] Let_def)
qed

lemma stable_sort_unique:
  assumes ok: "sort_ok srt" and st: "sort_stable srt" and s: "sorted (map fst ks)"
  shows "srt ks = ks"
proof -
  have m: "mset (srt ks) = mset ks" and so: "sorted (map fst (srt ks))" using ok by (simp_all add: sort_ok_def)
  have f: "filter (\<lambda>x. fst k = fst x) (srt ks) = filter (\<lambda>x. fst k = fst x) ks" for k
    using st[unfolded sort_stable_def, rule_format, of "fst k" ks] by (simp add: eq_commute)
  have "sort_key fst ks = srt ks" by (rule properties_for_sort_key[OF m f so])
  moreover have "sort_key fst ks = ks" using s by (rule sort_key_id_if_sorted)
  ultimately show ?thesis by simp
qed

lemma with_keys_append: "with_keys key (a @ b) = with_keys key a @ with_keys key b"
  by (simp add: with_keys_def)

lemma with_keys_nulls: "\<forall>x \<in> set b. key x = None \<Longrightarrow> with_keys key b = []"
  by (induction b) (simp_all add: with_keys_def)

lemma with_keys_fst: "\<forall>x \<in> set a. key x \<noteq> None \<Longrightarrow> map Some (map fst (with_keys key a)) = map key a"
  by (induction a) (auto simp: with_keys_def)


lemma sort_values_fixed:
  assumes ok: "sort_ok srt" and st: "sort_stable srt" and n: "nulls_last_sorted key xs"
  shows "sort_values srt key xs = xs"
proof -
  from n obtain a b where ab: "xs = a @ b" "\<forall>x \<in> set a. key x \<noteq> None"
    "sorted (map fst (with_keys key a))" "\<forall>x \<in> set b. key x = None"
    unfolding nulls_last_sorted_def by blast
  have k: "with_keys key xs = with_keys key a" using ab(1,4) by (simp add: with_keys_append with_keys_nulls)
  have s: "srt (with_keys key a) = with_keys key a" by (rule stable_sort_unique[OF ok st ab(3)])
  have fa: "filter (\<lambda>x. key x = None) a = []" using ab(2) by (auto simp: filter_empty_conv)
  have fb: "filter (\<lambda>x. key x = None) b = b" using ab(4) by simp
  have ma: "filter (\<lambda>x. key x \<noteq> None) a = a" using ab(2) by simp
  show ?thesis unfolding sort_values_def k s with_keys_snd ma by (simp add: ab(1) fa fb)
qed

lemma with_keys_map_snd:
  "\<forall>p \<in> set K. key (snd p) = Some (fst p) \<Longrightarrow> with_keys key (map snd K) = K"
  by (induction K) (auto simp: with_keys_def)

lemma sort_values_nulls_last_sorted:
  assumes ok: "sort_ok srt"
  shows "nulls_last_sorted key (sort_values srt key xs)"
proof -
  let ?K = "srt (with_keys key xs)"
  have mem: "\<forall>p \<in> set ?K. key (snd p) = Some (fst p)"
    using srt_set[OF ok, of "with_keys key xs"] with_keys_mem[of _ key xs] by auto
  then have wk: "with_keys key (map snd ?K) = ?K" by (rule with_keys_map_snd)
  have "sorted (map fst ?K)" using ok by (simp add: sort_ok_def)
  then have "sorted (map fst (with_keys key (map snd ?K)))" unfolding wk .
  moreover have "\<forall>x \<in> set (map snd ?K). key x \<noteq> None" using mem by auto
  ultimately show ?thesis unfolding nulls_last_sorted_def sort_values_def
    by (intro exI[of _ "map snd ?K"] exI[of _ "filter (\<lambda>x. key x = None) xs"]) simp
qed

lemma ddl_append:
  "\<exists>a'. drop_duplicates_last key (a @ b) = a' @ drop_duplicates_last key b \<and> set a' \<subseteq> set a
        \<and> (sorted (map f a) \<longrightarrow> sorted (map f a'))"
proof (induction a)
  case Nil then show ?case by simp
next
  case (Cons x a)
  then obtain a' where a': "drop_duplicates_last key (a @ b) = a' @ drop_duplicates_last key b"
    "set a' \<subseteq> set a" "sorted (map f a) \<longrightarrow> sorted (map f a')" by blast
  show ?case
  proof (cases "key x \<in> key ` set (a @ b)")
    case True
    with a' show ?thesis by (intro exI[of _ a']) auto
  next
    case False
    have "sorted (map f (x # a)) \<longrightarrow> sorted (map f (x # a'))" using a'(2,3) by auto
    with False a' show ?thesis by (intro exI[of _ "x # a'"]) auto
  qed
qed

lemma ddl_nulls_last_sorted:
  assumes "nulls_last_sorted key xs"
  shows "nulls_last_sorted key (drop_duplicates_last k xs)"
proof -
  from assms obtain a b where ab: "xs = a @ b" "\<forall>x \<in> set a. key x \<noteq> None"
    "sorted (map fst (with_keys key a))" "\<forall>x \<in> set b. key x = None"
    unfolding nulls_last_sorted_def by blast
  have srt_a: "sorted (map (\<lambda>x. case key x of Some v \<Rightarrow> v) a)"
  proof -
    have "map fst (with_keys key a) = map (\<lambda>x. case key x of Some v \<Rightarrow> v) a"
      using ab(2) by (induction a) (auto simp: with_keys_def)
    with ab(3) show ?thesis by simp
  qed
  from ddl_append[of k a b "\<lambda>x. case key x of Some v \<Rightarrow> v"] srt_a obtain a' where
    a': "drop_duplicates_last k (a @ b) = a' @ drop_duplicates_last k b" "set a' \<subseteq> set a"
    "sorted (map (\<lambda>x. case key x of Some v \<Rightarrow> v) a')" by blast
  have na': "\<forall>x \<in> set a'. key x \<noteq> None" using a'(2) ab(2) by blast
  have "map fst (with_keys key a') = map (\<lambda>x. case key x of Some v \<Rightarrow> v) a'"
    using na' by (induction a') (auto simp: with_keys_def)
  with a'(3) have sa': "sorted (map fst (with_keys key a'))" by simp
  have nb: "\<forall>x \<in> set (drop_duplicates_last k b). key x = None"
    using ddl_set[of k b] ab(4) by blast
  show ?thesis unfolding nulls_last_sorted_def ab(1) a'(1) using na' sa' nb by blast
qed

lemma dedupe_twice_rows:
  assumes ok: "sort_ok srt" and st: "sort_stable srt"
  shows "rows (fst (dedupe_weekly_keep_latest srt (fst (dedupe_weekly_keep_latest srt weekly))))
         = rows (fst (dedupe_weekly_keep_latest srt weekly))"
proof (cases "has_cols [''email'', ''week_number''] weekly")
  case False
  then show ?thesis by (simp add: dedupe_weekly_keep_latest_def)
next
  case True
  let ?t1 = "fst (dedupe_weekly_keep_latest srt weekly)"
  let ?key = "if ''timestamp'' \<in> set (cols weekly) then ts_key else label_key"
  have c1: "cols ?t1 = cols weekly" by (rule dedupe_cols)
  then have hc1: "has_cols [''email'', ''week_number''] ?t1" using True by (simp add: has_cols_def)
  have r1: "rows ?t1 = drop_duplicates_last dedupe_key (sort_values srt ?key (rows weekly))"
    using True by (simp add: dedupe_weekly_keep_latest_def Let_def)
  have d: "distinct (map dedupe_key (rows ?t1))" unfolding r1 by (rule ddl_distinct)
  have n: "nulls_last_sorted ?key (rows ?t1)" unfolding r1
    by (rule ddl_nulls_last_sorted) (rule sort_values_nulls_last_sorted[OF ok])
  have fx: "sort_values srt ?key (rows ?t1) = rows ?t1" by (rule sort_values_fixed[OF ok st n])
  have "rows (fst (dedupe_weekly_keep_latest srt ?t1)) = drop_duplicates_last dedupe_key (sort_values srt ?key (rows ?t1))"
    using hc1 c1 by (simp add: dedupe_weekly_keep_latest_def[of srt ?t1] Let_def)
  also have "\<dots> = rows ?t1" unfolding fx using d by (rule ddl_id)
  finally show ?thesis .
qed

text \<open>
  C6. Running the deduplicator on the table it produced removes no row (the rows are the same
  as a multiset, the columns are the same) and reports no duplicates; with a stable sort the
  rows also keep their order.
\<close>

theorem dedupe_idempotent:
  assumes ok: "sort_ok srt"
  shows "rows (snd (dedupe_weekly_keep_latest srt (fst (dedupe_weekly_keep_latest srt weekly)))) = []
       \<and> mset (rows (fst (dedupe_weekly_keep_latest srt (fst (dedupe_weekly_keep_latest srt weekly)))))
           = mset (rows (fst (dedupe_weekly_keep_latest srt weekly)))
       \<and> cols (fst (dedupe_weekly_keep_latest srt (fst (dedupe_weekly_keep_latest srt weekly))))
           = cols (fst (dedupe_weekly_keep_latest srt weekly))
       \<and> (sort_stable srt \<longrightarrow>
            rows (fst (dedupe_weekly_keep_latest srt (fst (dedupe_weekly_keep_latest srt weekly))))
              = rows (fst (dedupe_weekly_keep_latest srt weekly)))"
  using dedupe_twice_mset[OF ok, of weekly] dedupe_twice_rows[OF ok, of weekly] by blast

lemmas dedupe_eval = dedupe_weekly_keep_latest_def has_cols_def sort_values_def with_keys_def
  ts_key_def col_def stable_sort_def dedupe_key_def key_group_def wrow_def Let_def



text \<open>
  Being a sort does not settle which of two submissions with the same latest timestamp
  survives: with the reversing sort it is the first of them in original order, with the stable
  sort the last.
\<close>

lemma reversing_sort_ok: "sort_ok reversing_sort"
  by (simp add: sort_ok_def reversing_sort_def)

lemma tie_break_depends_on_sort:
  "map fst (key_group (fst (dedupe_weekly_keep_latest reversing_sort weekly_ties)) (Str ''a'', IntV 1)) = [1]
   \<and> map fst (key_group (fst (dedupe_weekly_keep_latest stable_sort weekly_ties)) (Str ''a'', IntV 1)) = [2]"
  by (simp add: weekly_ties_def dedupe_eval reversing_sort_def)


text \<open>Witness for C6.\<close>

theorem dedupe_idempotent_witness:
  "rows (snd (dedupe_weekly_keep_latest stable_sort (fst (dedupe_weekly_keep_latest stable_sort weekly_ties)))) = []
   \<and> map fst (rows (fst (dedupe_weekly_keep_latest stable_sort weekly_ties))) = [3, 2]
   \<and> size (mset (rows (fst (dedupe_weekly_keep_latest stable_sort (fst (dedupe_weekly_keep_latest stable_sort weekly_ties)))))) = 2"
proof -
  have r: "map fst (rows (fst (dedupe_weekly_keep_latest stable_sort weekly_ties))) = [3, 2]"
    by (simp add: weekly_ties_def dedupe_eval)
  then have "length (rows (fst (dedupe_weekly_keep_latest stable_sort weekly_ties))) = 2"
    by (metis length_map list.size(3,4) One_nat_def Suc_1 add.commute plus_1_eq_Suc)
  with dedupe_idempotent[OF stable_sort_ok, of weekly_ties] r show ?thesis by simp
qed

section \<open>Properties of the merger\<close>

lemma cols_set_col: "set (cols (set_col c f t)) = insert c (set (cols t))"
  by (auto simp: set_col_def)

lemma cols_set_col_mem: "c \<in> set (cols t) \<Longrightarrow> cols (set_col c f t) = cols t"
  by (simp add: set_col_def)

lemma distinct_set_col: "distinct (cols t) \<Longrightarrow> distinct (cols (set_col c f t))"
  by (simp add: set_col_def)

lemma rows_set_col: "rows (set_col c f t) = map (\<lambda>x. (fst x, (snd x)(c := f x))) (rows t)"
  by (simp add: set_col_def)


lemma cols_normalize: "cols (normalize_common fmt to_dt df) = cols df"
  by (simp add: normalize_common_def Let_def cols_set_col_mem)


lemma rows_normalize_other:
  "c \<noteq> ''email'' \<Longrightarrow> c \<noteq> ''timestamp'' \<Longrightarrow>
   map (col c) (rows (normalize_common fmt to_dt df)) = map (col c) (rows df)"
  by (simp add: normalize_common_def Let_def rows_set_col col_def o_def)






lemma sequence_err_ok_conv:
  "sequence_err vs = Inr ws \<Longrightarrow> \<forall>v \<in> set vs. \<exists>w. v = Inr w"
  by (induction vs arbitrary: ws) (auto split: sum.splits)










lemma add_delta_cols:
  assumes "add_delta d a b t = Inr t'"
  shows "set (cols t') \<subseteq> insert d (set (cols t))"
  using assms by (auto simp: add_delta_def cols_set_col split: if_splits)




























text \<open>
  The normaliser on characters beyond ASCII: a no-break space and a next-line character
  around the identity are stripped, and an accented capital is lowered.
\<close>

lemma norm_email_latin1:
  "norm_email example_fmt (0, row_of [(''email'', Str (CHR 0xA0 # CHR 0xC9 # ''ve@X.com '' @ [CHR 0x85]))])
   = Str (CHR 0xE9 # ''ve@x.com'')"
  by code_simp



text \<open>
  The labels that the hypothesis of the amended C7 leaves out, because the cast to the
  nullable integer type raises on them: a fraction, also behind a no-break space (which
  \<open>strip\<close> removes), and the tokens for infinity in any case.
\<close>

lemma week_labels_refused:
  "parse_week_cell (Str ''3.5'') = Inl TypeError"
  "parse_week_cell (Str (CHR 0xA0 # ''3.5'')) = Inl TypeError"
  "parse_week_cell (Str ''inf'') = Inl OverflowError"
  "parse_week_cell (Str ''Week -Infinity '') = Inl OverflowError"
  "\<not> week_label_ok (Str ''inf'')"
  "\<not> week_label_ok (Str (CHR 0xA0 # ''3.5''))"
  by (simp_all add: week_label_ok_def parse_eval)

lemma prep_data_infinity_raises:
  "prep_data example_fmt example_to_dt intake_one weekly_infinity = Inl OverflowError"
proof -
  have c: "''week_number'' \<in> set (cols weekly_infinity)" by (simp add: weekly_infinity_def)
  have "map (col ''week_number'') (rows (normalize_common example_fmt example_to_dt weekly_infinity))
      = map (col ''week_number'') (rows weekly_infinity)"
    by (rule rows_normalize_other) simp_all
  also have "\<dots> = [Str ''Week inf'']" by (simp add: weekly_infinity_def col_def row_of_def)
  finally have 2: "clean_weekly example_fmt example_to_dt weekly_infinity = Inl OverflowError"
    using c by (simp add: clean_weekly_def Let_def cols_normalize bind_err_def parse_eval)
  show ?thesis using 2 by (simp add: prep_data_def bind_err_def)
qed




section \<open>Properties of the action list\<close>

lemma py_int_of_int: "py_int (real_of_int n) = n"
  by (simp add: py_int_def)

lemma int_weeks_numeric:
  assumes "int_weeks t" "x \<in> set (rows t)"
  shows "to_numeric (col ''week_number'' x) = (case col ''week_number'' x of IntV n \<Rightarrow> Some (real_of_int n) | _ \<Rightarrow> None)"
  using assms by (auto simp: int_weeks_def)

lemma weeks_list_set:
  assumes iw: "int_weeks t"
  shows "set (concat (map (\<lambda>x. case to_numeric (col ''week_number'' x) of None \<Rightarrow> [] | Some v \<Rightarrow> [v]) (rows t)))
         = real_of_int ` week_numbers t"
proof -
  have "set (case to_numeric (col ''week_number'' x) of None \<Rightarrow> [] | Some v \<Rightarrow> [v])
        = real_of_int ` {n. col ''week_number'' x = IntV n}" if "x \<in> set (rows t)" for x
    using int_weeks_numeric[OF iw that] iw that by (auto simp: int_weeks_def split: cell.splits)
  then show ?thesis by (auto simp: week_numbers_def)
qed

lemma week_numbers_finite: "finite (week_numbers t)"
proof -
  have "week_numbers t \<subseteq> (\<lambda>x. case col ''week_number'' x of IntV n \<Rightarrow> n | _ \<Rightarrow> 0) ` set (rows t)"
    by (force simp: week_numbers_def)
  then show ?thesis by (rule finite_subset) simp
qed

lemma Max_real_of_int:
  assumes "finite S" "S \<noteq> {}"
  shows "Max (real_of_int ` S) = real_of_int (Max S)"
  using assms by (simp add: mono_Max_commute[symmetric] mono_def)

lemma current_week_max:
  assumes iw: "int_weeks merged"
  shows "current_week merged =
         (if is_empty merged \<or> ''week_number'' \<notin> set (cols merged) \<or> week_numbers merged = {} then None
          else Some (Max (week_numbers merged)))"
proof -
  let ?ws = "concat (map (\<lambda>x. case to_numeric (col ''week_number'' x) of None \<Rightarrow> [] | Some v \<Rightarrow> [v]) (rows merged))"
  have s: "set ?ws = real_of_int ` week_numbers merged" by (rule weeks_list_set[OF iw])
  have e: "?ws = [] \<longleftrightarrow> week_numbers merged = {}" using s by (metis image_is_empty set_empty)
  show ?thesis
    using e s Max_real_of_int[OF week_numbers_finite, of merged]
    by (simp add: current_week_def Let_def py_int_of_int)
qed

lemma this_week_rows:
  assumes iw: "int_weeks merged"
  shows "filter (\<lambda>x. cell_eq_int (col ''week_number'' x) wk) (rows merged) = week_rows merged wk"
  unfolding week_rows_def using iw
  by (intro filter_cong) (auto simp: int_weeks_def cell_eq_int_def num_of_def)

lemma sorted_cells_set: "sorted_cells cs = Inr ds \<Longrightarrow> set ds = set cs \<and> (distinct cs \<longrightarrow> distinct ds)"
  by (auto simp: sorted_cells_def split: if_splits)

lemma dropna_col_set: "set (dropna_col c xs) = {e \<in> col c ` set xs. e \<noteq> Null}"
  by (auto simp: dropna_col_def)

lemma missing_checkin_set:
  assumes "missing_checkin intake merged tw = Inr missing_df"
  shows "col ''email'' ` set (rows missing_df) = identities intake (rows intake) - identities merged tw"
    and "distinct (map (col ''email'') (rows missing_df))"
    and "cols missing_df = [''email'']"
proof -
  let ?sub = "if ''email'' \<in> set (cols merged) then dropna_col ''email'' tw else []"
  let ?all = "if ''email'' \<in> set (cols intake) then dropna_col ''email'' (rows intake) else []"
  from assms obtain missing where
    sc: "sorted_cells (remdups (filter (\<lambda>e. e \<notin> set ?sub) ?all)) = Inr missing" and
    md: "missing_df = \<lparr>cols = [''email''], rows = zip [0..<length missing] (map (\<lambda>e. (\<lambda>c. Null)(''email'' := e)) missing)\<rparr>"
    by (auto simp: missing_checkin_def Let_def bind_err_def split: sum.splits)
  have m: "map (col ''email'') (rows missing_df) = missing"
    unfolding md by (simp add: col_def map_idI map_snd_zip o_def) (induction missing rule: rev_induct, simp_all add: col_def)
  from sorted_cells_set[OF sc] have s: "set missing = set ?all - set ?sub" and d: "distinct missing" by auto
  have "col ''email'' ` set (rows missing_df) = set (map (col ''email'') (rows missing_df))" by simp
  also have "\<dots> = set ?all - set ?sub" unfolding m s ..
  also have "\<dots> = identities intake (rows intake) - identities merged tw"
    by (simp add: identities_def dropna_col_set)
  finally show "col ''email'' ` set (rows missing_df) = identities intake (rows intake) - identities merged tw" .
  show "distinct (map (col ''email'') (rows missing_df))" unfolding m by (rule d)
  show "cols missing_df = [''email'']" by (simp add: md)
qed

lemma missing_checkin_returns:
  assumes "text_identities intake"
  shows "\<exists>m. missing_checkin intake merged tw = Inr m"
proof -
  have "\<forall>c \<in> set (dropna_col ''email'' (rows intake)). is_str c"
    using assms by (auto simp: text_identities_def dropna_col_def)
  then have "\<forall>c \<in> set (remdups (filter P (if ''email'' \<in> set (cols intake) then dropna_col ''email'' (rows intake) else []))). is_str c" for P
    by simp
  then show ?thesis by (simp add: missing_checkin_def Let_def bind_err_def sorted_cells_def)
qed

lemma series_or_same:
  "series_or (map (\<lambda>x. (fst x, f x)) xs) (map (\<lambda>x. (fst x, g x)) xs) = map (\<lambda>x. (fst x, f x \<or> g x)) xs"
proof -
  have "map (\<lambda>(a, b). (fst a, snd a \<or> snd b)) (zip (map (\<lambda>x. (fst x, f x)) xs) (map (\<lambda>x. (fst x, g x)) xs))
        = map (\<lambda>x. (fst x, f x \<or> g x)) xs"
    by (induction xs) simp_all
  then show ?thesis by (simp add: series_or_def o_def)
qed

lemma assign_flags_lookup:
  assumes "set (map fst xs) \<subseteq> set U"
  shows "assign_flags (map (\<lambda>i. (i, F i)) U) xs = map (\<lambda>x. (x, Some (F (fst x)))) xs"
proof (cases "U = map fst xs")
  case True
  have "zip xs (map (Some \<circ> snd) (map (\<lambda>i. (i, F i)) (map fst xs))) = map (\<lambda>x. (x, Some (F (fst x)))) xs"
    by (induction xs) simp_all
  with True show ?thesis by (simp add: assign_flags_def o_def)
next
  case False
  have "map_of (map (\<lambda>i. (i, F i)) U) (fst x) = Some (F (fst x))" if "x \<in> set xs" for x
    using assms that by (simp add: map_of_map_restrict restrict_map_def subset_iff)
  with False show ?thesis by (simp add: assign_flags_def o_def)
qed

lemma assign_flags_same:
  "assign_flags (map (\<lambda>x. (fst x, h x)) xs) xs = map (\<lambda>x. (x, Some (h x))) xs"
proof -
  have "zip xs (map (Some \<circ> snd) (map (\<lambda>x. (fst x, h x)) xs)) = map (\<lambda>x. (x, Some (h x))) xs"
    by (induction xs) simp_all
  then show ?thesis by (simp add: assign_flags_def o_def)
qed

lemma map_of_labelled:
  assumes "distinct (map fst xs)" "x \<in> set xs"
  shows "map_of (map (\<lambda>x. (fst x, f x)) xs) (fst x) = Some (f x)"
  using assms by (induction xs) (auto simp: image_iff)

lemma range_false_lookup: "(case map_of (range_false n) i of None \<Rightarrow> False | Some b \<Rightarrow> b) = False"
proof (cases "map_of (range_false n) i")
  case None then show ?thesis by simp
next
  case (Some b)
  then have "(i, b) \<in> set (range_false n)" by (rule map_of_SomeD)
  then have "b = False" by (auto simp: range_false_def)
  with Some show ?thesis by simp
qed

lemma flags_with_range:
  assumes d: "distinct (map fst xs)"
  shows "assign_flags (series_or (map (\<lambda>x. (fst x, f x)) xs) (range_false (length xs))) xs
         = map (\<lambda>x. (x, Some (f x))) xs"
proof (cases "map fst (map (\<lambda>x. (fst x, f x)) xs) = map fst (range_false (length xs))")
  case True
  then have r: "range_false (length xs) = map (\<lambda>x. (fst x, False)) xs"
    by (simp add: range_false_def o_def) (metis (no_types, lifting) map_eq_conv map_map o_def)
  show ?thesis unfolding r series_or_same by (simp add: assign_flags_same)
next
  case False
  let ?l = "map (\<lambda>x. (fst x, f x)) xs"
  let ?r = "range_false (length xs)"
  let ?U = "sort (remdups (map fst ?l @ map fst ?r))"
  let ?F = "\<lambda>i. case map_of ?l i of None \<Rightarrow> False | Some a \<Rightarrow> a \<or> (case map_of ?r i of None \<Rightarrow> False | Some b \<Rightarrow> b)"
  have so: "series_or ?l ?r = map (\<lambda>i. (i, ?F i)) ?U" using False by (simp add: series_or_def)
  have sub: "set (map fst xs) \<subseteq> set ?U" by (auto simp: o_def)
  have F: "?F (fst x) = f x" if "x \<in> set xs" for x
    by (simp add: map_of_labelled[OF d that] range_false_lookup)
  show ?thesis unfolding so assign_flags_lookup[OF sub] using F by simp
qed

lemma mask_rows_flags:
  "mask_rows (map (\<lambda>x. (x, Some (h x))) xs) = Inr (map flag_row (filter h xs))"
proof -
  have "map (\<lambda>f. (fst (fst f), (snd (fst f))(''risk_flag'' := Bool True)))
          (filter (\<lambda>f. snd f = Some True) (map (\<lambda>x. (x, Some (h x))) xs)) = map flag_row (filter h xs)"
    by (induction xs) (auto simp: flag_row_def fun_eq_iff)
  then show ?thesis by (simp add: mask_rows_def)
qed

lemma stress_sleep_numeric:
  assumes "is_numeric (col ''stress_weekly'' x)" "is_numeric (col ''sleep_quality_weekly'' x)"
  shows "stress_sleep x = Inr (rule_b x)"
  using assms
  by (cases "col ''stress_weekly'' x"; cases "col ''sleep_quality_weekly'' x")
     (simp_all add: stress_sleep_def cmp_cell_def rule_b_def num_of_def is_numeric_def bind_err_def)

lemma sequence_err_map_Inr:
  "(\<forall>x \<in> set xs. f x = Inr (g x)) \<Longrightarrow> sequence_err (map f xs) = Inr (map g xs)"
  by (induction xs) simp_all



lemma desc_nulls_last_flagged: "desc_nulls_last key [] "
  by (simp add: desc_nulls_last_def)

lemma at_risk_rows_value:
  assumes adh: "''nutrition_adherence_weekly'' \<in> set cs"
    and d: "distinct (map fst tw)"
    and num: "set [''stress_weekly'', ''sleep_quality_weekly''] \<subseteq> set cs \<Longrightarrow>
              \<forall>x \<in> set tw. is_numeric (col ''stress_weekly'' x) \<and> is_numeric (col ''sleep_quality_weekly'' x)"
  shows "at_risk_rows srt fmt cs tw =
           Inr \<lparr>cols = (if ''risk_flag'' \<in> set cs then cs else cs @ [''risk_flag'']),
                rows = (if ''stress_weekly'' \<in> set cs
                        then sort_values_desc srt stress_key
                               (map flag_row (filter (\<lambda>x. very_few fmt x
                                  \<or> (set [''stress_weekly'', ''sleep_quality_weekly''] \<subseteq> set cs \<and> rule_b x)) tw))
                        else map flag_row (filter (\<lambda>x. very_few fmt x
                                  \<or> (set [''stress_weekly'', ''sleep_quality_weekly''] \<subseteq> set cs \<and> rule_b x)) tw))\<rparr>"
proof -
  let ?B = "set [''stress_weekly'', ''sleep_quality_weekly''] \<subseteq> set cs"
  let ?h = "\<lambda>x. very_few fmt x \<or> (?B \<and> rule_b x)"
  let ?ra = "map (\<lambda>x. (fst x, very_few fmt x)) tw"
  let ?flagged = "map flag_row (filter ?h tw)"
  have fl: "\<exists>rs. (if ?B then sequence_err (map (\<lambda>x. bind_err (stress_sleep x) (\<lambda>b. Inr (fst x, b))) tw)
                  else Inr (range_false (length tw))) = Inr rs
              \<and> mask_rows (assign_flags (series_or ?ra rs) tw) = Inr ?flagged"
  proof (cases ?B)
    case True
    have "\<forall>x \<in> set tw. bind_err (stress_sleep x) (\<lambda>b. Inr (fst x, b)) = Inr (fst x, rule_b x)"
      using num[OF True] by (simp add: stress_sleep_numeric bind_err_def)
    then have s: "sequence_err (map (\<lambda>x. bind_err (stress_sleep x) (\<lambda>b. Inr (fst x, b))) tw)
                  = Inr (map (\<lambda>x. (fst x, rule_b x)) tw)"
      by (rule sequence_err_map_Inr)
    have "mask_rows (assign_flags (series_or ?ra (map (\<lambda>x. (fst x, rule_b x)) tw)) tw) = Inr ?flagged"
      unfolding series_or_same assign_flags_same mask_rows_flags using True by simp
    with s show ?thesis unfolding if_P[OF True] by blast
  next
    case False
    then have h: "?h = very_few fmt" by (auto simp: fun_eq_iff)
    have "mask_rows (assign_flags (series_or ?ra (range_false (length tw))) tw) = Inr ?flagged"
      unfolding flags_with_range[OF d] mask_rows_flags h ..
    then show ?thesis unfolding if_not_P[OF False] by blast
  qed
  then obtain rs where rs: "(if ?B then sequence_err (map (\<lambda>x. bind_err (stress_sleep x) (\<lambda>b. Inr (fst x, b))) tw)
                  else Inr (range_false (length tw))) = Inr rs"
    and mk: "mask_rows (assign_flags (series_or ?ra rs) tw) = Inr ?flagged" by blast
  show ?thesis
    unfolding at_risk_rows_def Let_def using adh rs mk by (simp add: bind_err_def)
qed


text \<open>
  The missing table where the action list is returned. For a merged table whose week column
  is a nullable integer column, the current week is the largest week number present, and
  there is none when the table is empty, lacks the week column or holds no week number.
  Without a current week both outputs of the action list are empty. With a current week,
  when the baseline identities are texts and the merged table has the adherence column (and
  unique row labels, and numbers or missing values in the stress and sleep-quality columns
  when it has both), the action list is returned, and the identities in its missing table,
  each listed once, are exactly the baseline identities minus the identities of the rows of
  the current week.
\<close>

lemma coaching_action_list_missing_set:
  assumes iw: "int_weeks merged"
  shows "current_week merged =
           (if is_empty merged \<or> ''week_number'' \<notin> set (cols merged) \<or> week_numbers merged = {} then None
            else Some (Max (week_numbers merged)))
       \<and> (current_week merged = None \<longrightarrow>
            coaching_action_list srt fmt intake merged = Inr (\<lparr>cols = [''email''], rows = []\<rparr>, empty_table))
       \<and> (\<forall>wk. current_week merged = Some wk
              \<and> text_identities intake
              \<and> ''nutrition_adherence_weekly'' \<in> set (cols merged)
              \<and> distinct (map fst (rows merged))
              \<and> (has_cols [''stress_weekly'', ''sleep_quality_weekly''] merged \<longrightarrow> numeric_rule_b merged) \<longrightarrow>
            (\<exists>missing_df at_risk.
               coaching_action_list srt fmt intake merged = Inr (missing_df, at_risk)
               \<and> cols missing_df = [''email'']
               \<and> distinct (map (col ''email'') (rows missing_df))
               \<and> col ''email'' ` set (rows missing_df) =
                   identities intake (rows intake) - identities merged (week_rows merged wk)))"
proof (intro conjI allI impI)
  show "current_week merged =
           (if is_empty merged \<or> ''week_number'' \<notin> set (cols merged) \<or> week_numbers merged = {} then None
            else Some (Max (week_numbers merged)))"
    by (rule current_week_max[OF iw])
next
  assume "current_week merged = None"
  then show "coaching_action_list srt fmt intake merged = Inr (\<lparr>cols = [''email''], rows = []\<rparr>, empty_table)"
    by (simp add: coaching_action_list_def)
next
  fix wk
  assume h: "current_week merged = Some wk
              \<and> text_identities intake
              \<and> ''nutrition_adherence_weekly'' \<in> set (cols merged)
              \<and> distinct (map fst (rows merged))
              \<and> (has_cols [''stress_weekly'', ''sleep_quality_weekly''] merged \<longrightarrow> numeric_rule_b merged)"
  let ?tw = "week_rows merged wk"
  from h have cw: "current_week merged = Some wk" and ti: "text_identities intake"
    and adh: "''nutrition_adherence_weekly'' \<in> set (cols merged)"
    and lab: "distinct (map fst (rows merged))"
    and num: "has_cols [''stress_weekly'', ''sleep_quality_weekly''] merged \<longrightarrow> numeric_rule_b merged"
    by blast+
  have d: "distinct (map fst ?tw)" using lab by (simp add: week_rows_def distinct_map_filter)
  have n: "\<forall>x \<in> set ?tw. is_numeric (col ''stress_weekly'' x) \<and> is_numeric (col ''sleep_quality_weekly'' x)"
    if "set [''stress_weekly'', ''sleep_quality_weekly''] \<subseteq> set (cols merged)"
    using num that by (simp add: has_cols_def numeric_rule_b_def week_rows_def)
  from at_risk_rows_value[OF adh d n, of srt fmt] obtain a where
    a: "at_risk_rows srt fmt (cols merged) ?tw = Inr a" by blast
  from missing_checkin_returns[OF ti] obtain m where m: "missing_checkin intake merged ?tw = Inr m" by blast
  have c: "coaching_action_list srt fmt intake merged = Inr (m, a)"
    unfolding coaching_action_list_def cw this_week_rows[OF iw] using m a
    by (simp add: Let_def bind_err_def)
  from c missing_checkin_set[OF m]
  show "\<exists>missing_df at_risk.
               coaching_action_list srt fmt intake merged = Inr (missing_df, at_risk)
               \<and> cols missing_df = [''email'']
               \<and> distinct (map (col ''email'') (rows missing_df))
               \<and> col ''email'' ` set (rows missing_df) =
                   identities intake (rows intake) - identities merged (week_rows merged wk)"
    by blast
qed



lemmas action_eval = coaching_action_list_def missing_checkin_def at_risk_rows_def
  dropna_col_def sorted_cells_def is_str_def str_of_def series_or_def assign_flags_def
  mask_rows_def very_few_def astype_str_def strip_def py_space_def range_false_def
  cell_eq_int_def num_of_def bind_err_def col_def row_of_def Let_def
  stress_sleep_def cmp_cell_def sort_values_desc_def with_keys_def stress_key_def stable_sort_def

lemmas week_eval = current_week_def is_empty_def col_def row_of_def py_int_def Let_def



text \<open>
  Rule A on an adherence answer that ends with a no-break space: it is stripped like a blank.
\<close>

lemma very_few_no_break_space:
  "very_few example_fmt (0, row_of [(''nutrition_adherence_weekly'', Str (''Very few days'' @ [CHR 0xA0]))])"
  by (simp add: very_few_def astype_str_def strip_def py_space_def col_def row_of_def)

text \<open>
  Why the identities are taken to be texts: the baseline identities \<open>b\<close> and 5 are both missing
  in week 2, and sorting a text with a number raises a TypeError.
\<close>

lemma coaching_action_list_mixed_identities_raise:
  "coaching_action_list stable_sort example_fmt intake_mixed merged_abc = Inl TypeError"
proof -
  have c: "current_week merged_abc = Some 2" by (simp add: merged_abc_def week_eval)
  show ?thesis unfolding coaching_action_list_def c
    by (auto simp: action_eval merged_abc_def intake_mixed_def)
qed

text \<open>
  C5. With the baseline identities a, b, c and a merged table in which a and c submit in the
  current week 2, the missing table lists b; and for a merged table without a current week
  both outputs are empty. But the missing set is not computed for every merged table: with
  neither the adherence column nor the two columns of rule B, the flag column is built from
  the labels 0, ..., n - 1 only; the row of the current week 2 has label 1, gets a missing
  flag, and the mask raises a ValueError. The baseline identities minus the identities of
  the current week are a and c, and no missing table is returned.
\<close>

theorem coaching_action_list_raises_without_rule_columns:
  "(\<exists>missing_df at_risk.
       coaching_action_list stable_sort example_fmt intake_abc merged_abc = Inr (missing_df, at_risk)
       \<and> map (col ''email'') (rows missing_df) = [Str ''b''])
   \<and> coaching_action_list stable_sort example_fmt intake_abc empty_table
       = Inr (\<lparr>cols = [''email''], rows = []\<rparr>, empty_table)
   \<and> current_week merged_bare = Some 2
   \<and> identities intake_abc (rows intake_abc) - identities merged_bare (week_rows merged_bare 2)
       = {Str ''a'', Str ''c''}
   \<and> coaching_action_list stable_sort example_fmt intake_abc merged_bare = Inl ValueError"
proof -
  have c1: "current_week merged_abc = Some 2" by (simp add: merged_abc_def week_eval)
  have 1: "\<exists>missing_df at_risk.
       coaching_action_list stable_sort example_fmt intake_abc merged_abc = Inr (missing_df, at_risk)
       \<and> map (col ''email'') (rows missing_df) = [Str ''b'']"
    unfolding coaching_action_list_def c1
    by (auto simp: action_eval merged_abc_def intake_abc_def)
  have c0: "current_week empty_table = None" by (simp add: empty_table_def week_eval)
  have 0: "coaching_action_list stable_sort example_fmt intake_abc empty_table
       = Inr (\<lparr>cols = [''email''], rows = []\<rparr>, empty_table)"
    unfolding coaching_action_list_def c0 by simp
  have c2: "current_week merged_bare = Some 2" by (simp add: merged_bare_def week_eval)
  have 2: "coaching_action_list stable_sort example_fmt intake_abc merged_bare = Inl ValueError"
    unfolding coaching_action_list_def c2
    by (auto simp: action_eval merged_bare_def intake_abc_def)
  have 3: "identities intake_abc (rows intake_abc) - identities merged_bare (week_rows merged_bare 2)
       = {Str ''a'', Str ''c''}"
    by (auto simp: identities_def week_rows_def intake_abc_def merged_bare_def col_def row_of_def)
  from 1 0 c2 3 2 show ?thesis by simp
qed

section \<open>Properties of the summary metrics\<close>

lemma cell_number_num_of: "cell_number c = num_of c"
  by (simp add: cell_number_def num_of_def)

lemma week_of_key: "week_of = week_key"
  by (simp add: fun_eq_iff week_of_def week_key_def col_def cell_number_num_of)

lemma lost_sub_cells:
  "lost (sub_cells (col ''bodyweight_lbs_weekly'' x) (col ''bodyweight_lbs_baseline'' x))
   = (\<Sum>d\<leftarrow>negative_deltas [x]. \<bar>d\<bar>)"
  by (simp add: lost_def sub_cells_def negative_deltas_def weekly_minus_baseline_def
      cell_number_num_of col_def num_of_def split: option.splits)

lemma negative_deltas_Cons: "negative_deltas (x # xs) = negative_deltas [x] @ negative_deltas xs"
  by (simp add: negative_deltas_def)

lemma sum_lost_negative_deltas:
  "(\<Sum>x\<leftarrow>xs. lost (sub_cells (col ''bodyweight_lbs_weekly'' x) (col ''bodyweight_lbs_baseline'' x)))
   = (\<Sum>d\<leftarrow>negative_deltas xs. \<bar>d\<bar>)"
proof (induction xs)
  case Nil
  show ?case by (simp add: negative_deltas_def)
next
  case (Cons x xs)
  show ?case unfolding negative_deltas_Cons[of x xs] using Cons lost_sub_cells[of x] by simp
qed

lemma latest_rows_props:
  assumes ok: "sort_ok srt" and nw: "numeric_weeks merged"
  shows "latest_submissions merged (latest_rows srt merged)"
proof -
  let ?D = "filter (\<lambda>x. col ''week_number'' x \<noteq> Null) (rows merged)"
  let ?S = "sort_values srt week_key ?D"
  let ?F = "filter (\<lambda>x. col ''email'' x \<noteq> Null) ?S"
  have lr: "latest_rows srt merged = drop_duplicates_last (col ''email'') ?F"
    by (simp add: latest_rows_def group_tail_def)
  have setS: "set ?S = set ?D" using sort_values_mset[OF ok, of week_key ?D] by (metis set_mset_mset)
  have keyD: "\<forall>x \<in> set ?D. week_key x \<noteq> None"
    using nw by (auto simp: numeric_weeks_def week_key_def)
  have d: "distinct (map (col ''email'') (latest_rows srt merged))" unfolding lr by (rule ddl_distinct)
  have mem: "\<forall>l \<in> set (latest_rows srt merged). l \<in> set (rows merged) \<and> col ''email'' l \<noteq> Null \<and> week_key l \<noteq> None"
  proof
    fix l assume "l \<in> set (latest_rows srt merged)"
    then have "l \<in> set ?F" unfolding lr using ddl_set[of "col ''email''" ?F] by blast
    then have lD: "l \<in> set ?D" and le: "col ''email'' l \<noteq> Null" using setS by auto
    from lD have "l \<in> set (rows merged)" by simp
    moreover from keyD lD have "week_key l \<noteq> None" by blast
    ultimately show "l \<in> set (rows merged) \<and> col ''email'' l \<noteq> Null \<and> week_key l \<noteq> None"
      using le by blast
  qed
  have mx: "\<forall>x \<in> set (rows merged). col ''email'' x \<noteq> Null \<and> col ''week_number'' x \<noteq> Null \<longrightarrow>
            (\<exists>l \<in> set (latest_rows srt merged). col ''email'' l = col ''email'' x
                 \<and> (\<exists>u v. week_key x = Some u \<and> week_key l = Some v \<and> u \<le> v))"
  proof (intro ballI impI)
    fix x assume x: "x \<in> set (rows merged)" and xn: "col ''email'' x \<noteq> Null \<and> col ''week_number'' x \<noteq> Null"
    let ?e = "col ''email'' x"
    let ?P = "\<lambda>y. col ''email'' y = ?e"
    have xD: "x \<in> set ?D" using x xn by simp
    have P: "\<forall>y \<in> set ?D. ?P y \<longrightarrow> week_key y \<noteq> None" using keyD by blast
    from sort_values_group_max[OF ok P xD refl] obtain t u where
      tu: "week_key (last (filter ?P ?S)) = Some t" "week_key x = Some u" "u \<le> t"
      "?P (last (filter ?P ?S))" by blast
    have fe: "filter ?P ?F = filter ?P ?S" using xn by (auto intro: filter_cong)
    have "x \<in> set ?F" using xD setS xn by simp
    then have "?e \<in> col ''email'' ` set ?F" by blast
    from ddl_filter_last[OF this] have "filter ?P (latest_rows srt merged) = [last (filter ?P ?S)]"
      unfolding lr fe .
    then have "last (filter ?P ?S) \<in> set (filter ?P (latest_rows srt merged))" by simp
    then have "last (filter ?P ?S) \<in> set (latest_rows srt merged)" by simp
    with tu show "\<exists>l \<in> set (latest_rows srt merged). col ''email'' l = col ''email'' x
                 \<and> (\<exists>u v. week_key x = Some u \<and> week_key l = Some v \<and> u \<le> v)" by blast
  qed
  from d mem mx show ?thesis unfolding latest_submissions_def week_of_key by blast
qed

text \<open>
  C3. On an empty table or one that lacks a needed column the total weight lost is 0.
  Otherwise (week numbers and body weights being numbers or missing) there is a choice of
  latest submissions, one row per identity with the largest week number of that identity
  among the rows that have a week number, such that the total is the sum of the absolute
  values of the negative ones among the weekly-minus-baseline body weights of these rows. A
  row whose delta is positive, or missing because a weight is missing, adds nothing.
\<close>

theorem total_weight_lost_latest:
  assumes ok: "sort_ok srt" and nw: "numeric_weeks merged" and nm: "numeric_weights merged"
  shows "(is_empty merged \<or> \<not> has_cols weight_needed merged \<longrightarrow> compute_total_weight_lost srt merged = Inr 0)
       \<and> (\<not> is_empty merged \<and> has_cols weight_needed merged \<longrightarrow>
            (\<exists>ls. latest_submissions merged ls
                 \<and> compute_total_weight_lost srt merged = Inr (\<Sum>d\<leftarrow>negative_deltas ls. \<bar>d\<bar>)))"
proof (intro conjI impI)
  assume "is_empty merged \<or> \<not> has_cols weight_needed merged"
  then show "compute_total_weight_lost srt merged = Inr 0"
    by (auto simp: compute_total_weight_lost_def)
next
  assume a: "\<not> is_empty merged \<and> has_cols weight_needed merged"
  note ls = latest_rows_props[OF ok nw]
  then have "\<forall>x \<in> set (latest_rows srt merged). is_numeric (col ''bodyweight_lbs_weekly'' x)
                               \<and> is_numeric (col ''bodyweight_lbs_baseline'' x)"
    using nm unfolding latest_submissions_def numeric_weights_def by blast
  then have "compute_total_weight_lost srt merged
             = Inr (\<Sum>x\<leftarrow>latest_rows srt merged.
                      lost (sub_cells (col ''bodyweight_lbs_weekly'' x) (col ''bodyweight_lbs_baseline'' x)))"
    using a by (simp add: compute_total_weight_lost_def Let_def)
  then have "compute_total_weight_lost srt merged = Inr (\<Sum>d\<leftarrow>negative_deltas (latest_rows srt merged). \<bar>d\<bar>)"
    unfolding sum_lost_negative_deltas .
  with ls show "\<exists>ls. latest_submissions merged ls
                 \<and> compute_total_weight_lost srt merged = Inr (\<Sum>d\<leftarrow>negative_deltas ls. \<bar>d\<bar>)" by blast
qed

lemmas weight_eval = compute_total_weight_lost_def latest_rows_def group_tail_def sort_values_def
  with_keys_def week_key_def stable_sort_def is_empty_def has_cols_def weight_needed_def
  is_numeric_def sub_cells_def lost_def num_of_def col_def weight_row_def row_of_def Let_def

text \<open>
  Witness for C3. The latest submissions are the rows 0 (a, week 2, delta -5), 2 (b, delta 7),
  3 (c, no delta) and 5 (d, delta -3); the negative deltas are -5 and -3, and the total is
  5 + 3 = 8: the gain of b is not netted out, and the earlier, larger loss of a does not count.
\<close>

theorem total_weight_lost_latest_witness:
  "(\<exists>ls. latest_submissions merged_weights ls
        \<and> compute_total_weight_lost stable_sort merged_weights = Inr (\<Sum>d\<leftarrow>negative_deltas ls. \<bar>d\<bar>))
   \<and> compute_total_weight_lost stable_sort merged_weights = Inr 8
   \<and> map fst (latest_rows stable_sort merged_weights) = [3, 0, 2, 5]
   \<and> negative_deltas (latest_rows stable_sort merged_weights) = [- 5, - 3]
   \<and> compute_total_weight_lost stable_sort empty_table = Inr 0"
proof -
  have nw: "numeric_weeks merged_weights"
    by (simp add: numeric_weeks_def merged_weights_def col_def weight_row_def row_of_def num_of_def)
  have nm: "numeric_weights merged_weights"
    by (simp add: numeric_weights_def merged_weights_def col_def weight_row_def row_of_def is_numeric_def)
  have a: "\<not> is_empty merged_weights \<and> has_cols weight_needed merged_weights"
    by (simp add: is_empty_def has_cols_def weight_needed_def merged_weights_def)
  have e: "is_empty empty_table" by (simp add: is_empty_def empty_table_def)
  have v: "compute_total_weight_lost stable_sort merged_weights = Inr 8"
    by (simp add: merged_weights_def weight_eval)
  have l: "latest_rows stable_sort merged_weights
           = [(3, weight_row ''c'' (IntV 1) Null (Num 180)), (0, weight_row ''a'' (IntV 2) (Num 195) (Num 200)),
              (2, weight_row ''b'' (IntV 2) (Num 207) (Num 200)), (5, weight_row ''d'' (IntV 3) (Num 150) (Num 153))]"
    by (simp add: merged_weights_def latest_rows_def group_tail_def sort_values_def with_keys_def
        week_key_def stable_sort_def num_of_def col_def weight_row_def row_of_def)
  have n: "negative_deltas (latest_rows stable_sort merged_weights) = [- 5, - 3]"
    unfolding l by (simp add: negative_deltas_def weekly_minus_baseline_def cell_number_def
        weight_row_def row_of_def)
  have nwe: "numeric_weeks empty_table" "numeric_weights empty_table"
    by (simp_all add: numeric_weeks_def numeric_weights_def empty_table_def)
  from total_weight_lost_latest[OF stable_sort_ok nw nm] a
       total_weight_lost_latest[OF stable_sort_ok nwe] e v l n
  show ?thesis by simp
qed

section \<open>Properties of the cohort aggregator\<close>

lemma summary_row_week:
  assumes "g \<noteq> []" "\<forall>x \<in> set g. week_key x = Some k"
  shows "week_key (i, summary_row g) = Some k"
proof -
  from assms have "week_key (hd g) = Some k" by simp
  then show ?thesis by (simp add: week_key_def col_def summary_row_def)
qed

text \<open>Whenever the summary is returned, it has the expected columns and one row for each week
  number, in ascending order.\<close>

lemma cohort_summary_weeks:
  assumes "cohort_weekly_summary merged = Inr out"
  shows "cols out = summary_cols
       \<and> (\<exists>ks. map week_key (rows out) = map Some ks \<and> sorted ks \<and> distinct ks)"
proof (cases "is_empty merged \<or> ''week_number'' \<notin> set (cols merged)")
  case True
  with assms have "out = \<lparr>cols = summary_cols, rows = []\<rparr>" by (auto simp: cohort_weekly_summary_def)
  then show ?thesis by simp
next
  case False
  let ?kept = "filter (\<lambda>x. week_key x \<noteq> None) (rows merged)"
  let ?weeks = "sort (remdups (concat (map (\<lambda>x. case week_key x of None \<Rightarrow> [] | Some k \<Rightarrow> [k]) ?kept)))"
  let ?groups = "map (\<lambda>k. filter (\<lambda>x. week_key x = Some k) ?kept) ?weeks"
  from assms False have o: "out = \<lparr>cols = summary_cols, rows = zip [0..<length ?groups] (map summary_row ?groups)\<rparr>"
    by (auto simp: cohort_weekly_summary_def Let_def split: if_splits)
  have ne: "filter (\<lambda>x. week_key x = Some k) ?kept \<noteq> []" if "k \<in> set ?weeks" for k
  proof -
    from that obtain x where "x \<in> set ?kept" "week_key x = Some k" by (auto split: option.splits)
    then show ?thesis by (auto simp: filter_empty_conv)
  qed
  have wk: "week_key (i, summary_row (filter (\<lambda>x. week_key x = Some k) ?kept)) = Some k" if "k \<in> set ?weeks" for k i
    by (rule summary_row_week[OF ne[OF that]]) simp
  have "map week_key (zip [0..<length ws] (map (\<lambda>k. summary_row (filter (\<lambda>x. week_key x = Some k) ?kept)) ws))
        = map Some ws" if "set ws \<subseteq> set ?weeks" for ws
    using that
  proof (induction ws rule: rev_induct)
    case Nil then show ?case by simp
  next
    case (snoc k ws)
    then have "k \<in> set ?weeks" by simp
    from wk[OF this] snoc show ?case by simp
  qed
  from this[of ?weeks] have m: "map week_key (rows out) = map Some ?weeks" unfolding o by (simp add: o_def)
  have "sorted ?weeks" "distinct ?weeks" by simp_all
  with m o show ?thesis by auto
qed

text \<open>On the table with every column: two participants with mean body weight 200 in week 1,
  one participant in week 2; missing scores are left out of the means.\<close>

lemma cohort_summary_example:
  "\<exists>out. cohort_weekly_summary merged_full = Inr out
     \<and> map (\<lambda>x. (col ''week_number'' x, col ''n_participants'' x, col ''bodyweight_mean'' x,
                  col ''adherence_mean'' x, col ''stress_mean'' x)) (rows out)
       = [(IntV 1, IntV 2, Num 200, Num 1, Null), (IntV 2, IntV 1, Num 190, Num 1, Null)]"
  by (simp add: cohort_weekly_summary_def is_empty_def has_cols_def merged_full_def full_row_def
      row_of_def col_def week_key_def num_of_def is_numeric_def summary_aggs_def summary_row_def
      mean_cells_def nunique_def Let_def)

text \<open>
  C8. On an empty merged table the summary has no rows and the eight expected columns. But on
  a merged table with the identity and week-number columns only (what the pipeline produces
  from a weekly file with just the required columns) the aggregation does not return the
  grouped rows: it raises a KeyError, because the metric columns it names do not exist.
\<close>

theorem cohort_summary_missing_metric_raises:
  "cohort_weekly_summary empty_table = Inr \<lparr>cols = summary_cols, rows = []\<rparr>
   \<and> summary_cols = [''week_number'', ''n_participants'', ''bodyweight_mean'', ''rhr_mean'',
        ''energy_mean'', ''adherence_mean'', ''sleep_hours_mean'', ''stress_mean'']
   \<and> \<not> is_empty merged_bare \<and> ''week_number'' \<in> set (cols merged_bare)
   \<and> cohort_weekly_summary merged_bare = Inl KeyError"
  by (simp add: cohort_weekly_summary_def is_empty_def empty_table_def merged_bare_def has_cols_def
      summary_aggs_def summary_cols_def)

end
